theory Spec2Isabelle
  imports Main "HOL-Library.Sublist" "HOL-Library.Multiset"
begin

section \<open>Text primitives of the generator\<close>

text \<open>
  \<^verbatim>\<open>build_publications.py\<close> is a one-pass generator: it reads \<^verbatim>\<open>publications.csv\<close>,
  renders one fragment per row and writes \<^verbatim>\<open>publications.html\<close>. A Python \<^verbatim>\<open>str\<close> is
  modelled as a \<^typ>\<open>string\<close>: the bytes of its UTF-8 encoding, which for ASCII text are
  its characters. Splitting, replacing, escaping and the regular expressions of the
  source only ever look for ASCII characters, and no byte of the encoding of another
  character is an ASCII byte, so on the bytes they do what Python does on the code
  points.
\<close>

definition newline :: char where
  "newline = CHR 0x0A"

definition apostrophe :: char where
  "apostrophe = CHR 0x27"

subsection \<open>Trimming\<close>

text \<open>
  The characters \<^verbatim>\<open>str.strip\<close> removes, the ones with \<^verbatim>\<open>str.isspace\<close>, each as its UTF-8
  encoding: U+0009 to U+000D, U+001C to U+001F, U+0020, U+0085, U+00A0, U+1680, U+2000 to
  U+200A, U+2028, U+2029, U+202F, U+205F and U+3000. No encoding is the beginning of
  another, and an encoding at the end of a text is the last character of the text, since
  its first byte cannot lie inside a character.
\<close>

definition whitespace :: "string list" where
  "whitespace =
     [[CHR 0x09], [CHR 0x0A], [CHR 0x0B], [CHR 0x0C], [CHR 0x0D],
      [CHR 0x1C], [CHR 0x1D], [CHR 0x1E], [CHR 0x1F], [CHR 0x20],
      [CHR 0xC2, CHR 0x85], [CHR 0xC2, CHR 0xA0],
      [CHR 0xE1, CHR 0x9A, CHR 0x80],
      [CHR 0xE2, CHR 0x80, CHR 0x80], [CHR 0xE2, CHR 0x80, CHR 0x81],
      [CHR 0xE2, CHR 0x80, CHR 0x82], [CHR 0xE2, CHR 0x80, CHR 0x83],
      [CHR 0xE2, CHR 0x80, CHR 0x84], [CHR 0xE2, CHR 0x80, CHR 0x85],
      [CHR 0xE2, CHR 0x80, CHR 0x86], [CHR 0xE2, CHR 0x80, CHR 0x87],
      [CHR 0xE2, CHR 0x80, CHR 0x88], [CHR 0xE2, CHR 0x80, CHR 0x89],
      [CHR 0xE2, CHR 0x80, CHR 0x8A],
      [CHR 0xE2, CHR 0x80, CHR 0xA8], [CHR 0xE2, CHR 0x80, CHR 0xA9],
      [CHR 0xE2, CHR 0x80, CHR 0xAF],
      [CHR 0xE2, CHR 0x81, CHR 0x9F],
      [CHR 0xE3, CHR 0x80, CHR 0x80]]"

text \<open>\<^verbatim>\<open>s.lstrip()\<close>: while the text begins with a whitespace character, drop that
  character.\<close>

function lstrip :: "string \<Rightarrow> string" where
  "lstrip s =
     (case find (\<lambda>w. prefix w s) whitespace of
        None \<Rightarrow> s
      | Some w \<Rightarrow> lstrip (drop (length w) s))"
  by pat_completeness auto
termination
proof (relation "measure length")
  show "wf (measure length)" by simp
next
  fix s w :: string
  assume "find (\<lambda>w. prefix w s) whitespace = Some w"
  then have "w \<in> set whitespace" and p: "prefix w s"
    by (auto simp: find_Some_iff)
  then have "w \<noteq> []" by (auto simp: whitespace_def)
  with p have "length (drop (length w) s) < length s"
    by (auto simp: prefix_def)
  then show "(drop (length w) s, s) \<in> measure length" by simp
qed

text \<open>\<^verbatim>\<open>s.rstrip()\<close>: the same at the end of the text.\<close>

function rstrip :: "string \<Rightarrow> string" where
  "rstrip s =
     (case find (\<lambda>w. suffix w s) whitespace of
        None \<Rightarrow> s
      | Some w \<Rightarrow> rstrip (take (length s - length w) s))"
  by pat_completeness auto
termination
proof (relation "measure length")
  show "wf (measure length)" by simp
next
  fix s w :: string
  assume "find (\<lambda>w. suffix w s) whitespace = Some w"
  then have "w \<in> set whitespace" and p: "suffix w s"
    by (auto simp: find_Some_iff)
  then have "w \<noteq> []" by (auto simp: whitespace_def)
  with p have "length (take (length s - length w) s) < length s"
    by (auto simp: suffix_def)
  then show "(take (length s - length w) s, s) \<in> measure length" by simp
qed

declare lstrip.simps [simp del] rstrip.simps [simp del]

definition strip :: "string \<Rightarrow> string" where
  "strip s = rstrip (lstrip s)"

subsection \<open>Lowercasing\<close>

text \<open>
  \<^verbatim>\<open>str.lower\<close> follows the case tables of Unicode, which are no part of the program. The
  functions that call it take it as their first argument, \<open>lower\<close>. What is known of it
  here is its action on ASCII text, \<open>lowers_ascii\<close>: the letters A to Z go to a to z and
  every other ASCII character stays. \<open>ascii_lower\<close> is that action, on any text.
\<close>

definition lower_char :: "char \<Rightarrow> char" where
  "lower_char c =
     (case map_of (zip ''ABCDEFGHIJKLMNOPQRSTUVWXYZ'' ''abcdefghijklmnopqrstuvwxyz'') c of
        Some d \<Rightarrow> d
      | None \<Rightarrow> c)"

definition ascii_lower :: "string \<Rightarrow> string" where
  "ascii_lower s = map lower_char s"

text \<open>ASCII text: every byte is below 0x80.\<close>

definition ascii :: "string \<Rightarrow> bool" where
  "ascii s = list_all (\<lambda>c. \<not> digit7 c) s"

definition lowers_ascii :: "(string \<Rightarrow> string) \<Rightarrow> bool" where
  "lowers_ascii lower = (\<forall>s. ascii s \<longrightarrow> lower s = ascii_lower s)"

text \<open>\<^verbatim>\<open>s.startswith(p)\<close>: the first \<open>len(p)\<close> characters of \<open>s\<close> are \<open>p\<close>.\<close>

definition startswith :: "string \<Rightarrow> string \<Rightarrow> bool" where
  "startswith s p = (take (length p) s = p)"

text \<open>\<^verbatim>\<open>sep.join(xs)\<close>.\<close>

fun join :: "string \<Rightarrow> string list \<Rightarrow> string" where
  "join sep [] = []"
| "join sep [x] = x"
| "join sep (x # y # ys) = x @ sep @ join sep (y # ys)"

text \<open>\<^verbatim>\<open>s.split(c)\<close> for a one-character separator: every occurrence cuts, and the
  empty string gives one empty piece.\<close>

fun split_on :: "char \<Rightarrow> string \<Rightarrow> string list" where
  "split_on c [] = [[]]"
| "split_on c (x # xs) =
     (if x = c then [] # split_on c xs
      else (case split_on c xs of
              p # ps \<Rightarrow> (x # p) # ps
            | [] \<Rightarrow> [[x]]))"

text \<open>\<^verbatim>\<open>s.split(c, 1)\<close>: at most one cut, at the first occurrence.\<close>

definition split_first :: "char \<Rightarrow> string \<Rightarrow> string list" where
  "split_first c s =
     (if c \<in> set s then [takeWhile (\<lambda>x. x \<noteq> c) s, tl (dropWhile (\<lambda>x. x \<noteq> c) s)]
      else [s])"

text \<open>\<^verbatim>\<open>s.replace(old, new)\<close>: the occurrences of \<open>old\<close> are found from the left and do
  not overlap. With an empty \<open>old\<close> Python puts \<open>new\<close> around every character.\<close>

function replace :: "string \<Rightarrow> string \<Rightarrow> string \<Rightarrow> string" where
  "replace old new [] = (if old = [] then new else [])"
| "replace old new (x # xs) =
     (if old = [] then new @ x # replace old new xs
      else if prefix old (x # xs) then new @ replace old new (drop (length old) (x # xs))
      else x # replace old new xs)"
  by pat_completeness auto
termination
  by (relation "measure (\<lambda>(old, new, s). length s)") auto

subsection \<open>HTML escaping\<close>

text \<open>\<^verbatim>\<open>html.escape(s, quote=True)\<close> replaces the five markup-significant characters, the
  ampersand first; character by character that is the map below. \<^verbatim>\<open>esc\<close> reads
  \<^verbatim>\<open>s or ""\<close>, which is \<open>s\<close> for every string.\<close>

definition esc_char :: "char \<Rightarrow> string" where
  \<open>esc_char c =
     (if c = CHR ''&'' then ''&amp;''
      else if c = CHR ''<'' then ''&lt;''
      else if c = CHR ''>'' then ''&gt;''
      else if c = CHR ''"'' then ''&quot;''
      else if c = apostrophe then ''&#x27;''
      else [c])\<close>

definition esc :: "string \<Rightarrow> string" where
  "esc s = concat (map esc_char s)"

section \<open>Section normalisation\<close>

definition normalize_section :: "(string \<Rightarrow> string) \<Rightarrow> string \<Rightarrow> string" where
  "normalize_section lower s0 =
     (let s = lower (strip s0) in
      if startswith s ''jour'' then ''journal''
      else if startswith s ''work'' then ''working''
      else if startswith s ''conf'' then ''conference''
      else ''other'')"

section \<open>Rows\<close>

text \<open>A row as \<^verbatim>\<open>read_rows\<close> returns it: a dictionary from column names to trimmed
  values. \<open>field row k\<close> is \<^verbatim>\<open>row.get(k) or ""\<close> (and \<^verbatim>\<open>row.get(k, "")\<close>, the values being
  strings); the test \<^verbatim>\<open>if row.get(k):\<close> holds exactly when \<open>field row k\<close> is not
  empty, and inside it \<^verbatim>\<open>row[k]\<close> is \<open>field row k\<close>.\<close>

type_synonym row = "string \<rightharpoonup> string"

definition field :: "row \<Rightarrow> string \<Rightarrow> string" where
  "field r k = (case r k of None \<Rightarrow> [] | Some v \<Rightarrow> v)"

section \<open>The text formatter\<close>

text \<open>
  \<^verbatim>\<open>re.sub(r"\*\*(.+?)\*\*", r"<strong>\1</strong>", t)\<close> and the same with \<^verbatim>\<open>__\<close>, the
  marker being \<open>c\<close>. After the two opening markers the lazy group takes one character
  that is not a newline; \<open>strong_close\<close> then tries the two closing markers where it
  stands and, when they are not there, gives the group one more character that is not a
  newline. \<open>g\<close> is the group so far.
\<close>

fun strong_close :: "char \<Rightarrow> string \<Rightarrow> string \<Rightarrow> (string \<times> string) option" where
  "strong_close c g [] = None"
| "strong_close c g (x # xs) =
     (if prefix [c, c] (x # xs) then Some (g, drop 2 (x # xs))
      else if x = newline then None
      else strong_close c (g @ [x]) xs)"

text \<open>A match of the pattern that starts at the head of the text: the group and the text
  after the match.\<close>

fun match_strong :: "char \<Rightarrow> string \<Rightarrow> (string \<times> string) option" where
  "match_strong c (a # b # x # xs) =
     (if a = c \<and> b = c \<and> x \<noteq> newline then strong_close c [x] xs else None)"
| "match_strong c _ = None"

text \<open>\<^verbatim>\<open>re.sub\<close> looks for a match at each position from the left; a match is replaced
  and the search goes on after it, any other character is copied.\<close>

function sub_strong :: "char \<Rightarrow> string \<Rightarrow> string" where
  "sub_strong c [] = []"
| "sub_strong c (x # xs) =
     (case match_strong c (x # xs) of
        Some (g, rest) \<Rightarrow> ''<strong>'' @ g @ ''</strong>'' @ sub_strong c rest
      | None \<Rightarrow> x # sub_strong c xs)"
  by pat_completeness auto
termination
proof (relation "measure (\<lambda>(c, s). length s)")
  show "wf (measure (\<lambda>(c, s). length s))" by simp
next
  fix c :: char and x xs x2 g rest
  assume m: "match_strong c (x # xs) = Some x2" and x2: "(g, rest) = x2"
  have aux: "strong_close c' g' s = Some (g'', r) \<Longrightarrow> length r < length s" for c' g' s g'' r
    by (induction c' g' s rule: strong_close.induct) (auto split: if_splits)
  from m x2 have "match_strong c (x # xs) = Some (g, rest)" by simp
  then have "length rest < length (x # xs)"
    by (cases "(c, x # xs)" rule: match_strong.cases)
       (auto split: if_splits dest!: aux)
  then show "((c, rest), (c, x # xs)) \<in> measure (\<lambda>(c, s). length s)" by simp
next
  fix c :: char and x xs
  show "((c, xs), (c, x # xs)) \<in> measure (\<lambda>(c, s). length s)" by simp
qed

text \<open>
  \<^verbatim>\<open>re.sub(r"(?<!\*)\*(?!\*)(.+?)(?<!\*)\*(?!\*)", r"<em>\1</em>", t)\<close> and the same with
  \<^verbatim>\<open>_\<close>. \<open>em_close\<close> stands after a group \<open>g\<close> whose last character is \<open>l\<close>: the
  closing marker matches when \<open>l\<close> is not the marker (the lookbehind), the next character
  is the marker, and the one after it is not (the lookahead, which also holds at the end
  of the text); otherwise the group takes one more character that is not a newline.
\<close>

fun em_close :: "char \<Rightarrow> string \<Rightarrow> char \<Rightarrow> string \<Rightarrow> (string \<times> string) option" where
  "em_close c g l [] = None"
| "em_close c g l (x # xs) =
     (if l \<noteq> c \<and> x = c \<and> (case xs of [] \<Rightarrow> True | y # ys \<Rightarrow> y \<noteq> c) then Some (g, xs)
      else if x = newline then None
      else em_close c (g @ [x]) x xs)"

text \<open>\<open>prev\<close> is the character before the position, \<open>None\<close> at the start of the text.
  The opening marker needs a character before it that is not the marker, and one after it
  that is neither the marker (the lookahead) nor a newline (the first character of the
  group).\<close>

fun match_em :: "char \<Rightarrow> char option \<Rightarrow> string \<Rightarrow> (string \<times> string) option" where
  "match_em c prev (a # x # xs) =
     (if prev \<noteq> Some c \<and> a = c \<and> x \<noteq> c \<and> x \<noteq> newline then em_close c [x] x xs else None)"
| "match_em c prev _ = None"

function sub_em :: "char \<Rightarrow> char option \<Rightarrow> string \<Rightarrow> string" where
  "sub_em c prev [] = []"
| "sub_em c prev (x # xs) =
     (case match_em c prev (x # xs) of
        Some (g, rest) \<Rightarrow> ''<em>'' @ g @ ''</em>'' @ sub_em c (Some c) rest
      | None \<Rightarrow> x # sub_em c (Some x) xs)"
  by pat_completeness auto
termination
proof (relation "measure (\<lambda>(c, prev, s). length s)")
  show "wf (measure (\<lambda>(c, prev, s). length s))" by simp
next
  fix c :: char and prev :: "char option" and x xs x2 g rest
  assume m: "match_em c prev (x # xs) = Some x2" and x2: "(g, rest) = x2"
  have aux: "em_close c' g' l s = Some (g'', r) \<Longrightarrow> length r < length s" for c' g' l s g'' r
    by (induction c' g' l s rule: em_close.induct) (auto split: if_splits)
  from m x2 have "match_em c prev (x # xs) = Some (g, rest)" by simp
  then have "length rest < length (x # xs)"
    by (cases "(c, prev, x # xs)" rule: match_em.cases)
       (auto split: if_splits dest!: aux)
  then show "((c, Some c, rest), (c, prev, x # xs)) \<in> measure (\<lambda>(c, prev, s). length s)"
    by simp
next
  fix c :: char and prev :: "char option" and x xs
  show "((c, Some x, xs), (c, prev, x # xs)) \<in> measure (\<lambda>(c, prev, s). length s)" by simp
qed

text \<open>The eight replacements that give the four whitelisted tags back, in the order of the
  source.\<close>

definition whitelist :: "string \<Rightarrow> string" where
  "whitelist t0 =
     (let t = replace ''&lt;em&gt;'' ''<em>'' t0;
          t = replace ''&lt;/em&gt;'' ''</em>'' t;
          t = replace ''&lt;i&gt;'' ''<em>'' t;
          t = replace ''&lt;/i&gt;'' ''</em>'' t;
          t = replace ''&lt;strong&gt;'' ''<strong>'' t;
          t = replace ''&lt;/strong&gt;'' ''</strong>'' t;
          t = replace ''&lt;b&gt;'' ''<strong>'' t;
          t = replace ''&lt;/b&gt;'' ''</strong>'' t
      in t)"

definition fmt :: "string \<Rightarrow> string" where
  "fmt s =
     (let t = esc s;
          t = sub_strong (CHR ''*'') t;
          t = sub_strong (CHR ''_'') t;
          t = sub_em (CHR ''*'') None t;
          t = sub_em (CHR ''_'') None t
      in whitelist t)"

section \<open>Rendering a row\<close>

definition ICON_COMMENT :: string where
  \<open>ICON_COMMENT = ''<svg class="i" viewBox="0 0 24 24" fill="none" stroke="currentColor" stroke-width="2" stroke-linecap="round" stroke-linejoin="round" aria-hidden="true"><path d="M21 15a2 2 0 0 1-2 2H8l-4 4v-4H5a2 2 0 0 1-2-2V5a2 2 0 0 1 2-2h14a2 2 0 0 1 2 2z"/></svg>''\<close>

definition ICON_STATUS :: string where
  \<open>ICON_STATUS = ''<svg class="i" viewBox="0 0 24 24" fill="none" stroke="currentColor" stroke-width="2" stroke-linecap="round" stroke-linejoin="round" aria-hidden="true"><path d="M12 20l9-5-9-5-9 5 9 5z"/><path d="M12 12l9-5-9-5-9 5 9 5z"/></svg>''\<close>

definition ICON_YEAR :: string where
  \<open>ICON_YEAR = ''<svg class="i" viewBox="0 0 24 24" fill="none" stroke="currentColor" stroke-width="2" stroke-linecap="round" stroke-linejoin="round" aria-hidden="true"><circle cx="12" cy="12" r="10"/><path d="M12 6v6l4 2"/></svg>''\<close>

definition pills :: "string \<Rightarrow> string \<Rightarrow> string \<Rightarrow> string" where
  \<open>pills status year venue =
     join ''\<newline>          ''
       ((if status \<noteq> [] then [''<span class="pill" title="Status">'' @ ICON_STATUS @ '' '' @ esc status @ ''</span>''] else [])
        @ (if year \<noteq> [] then [''<span class="pill" title="Year">'' @ ICON_YEAR @ '' '' @ esc year @ ''</span>''] else [])
        @ (if venue \<noteq> [] then [''<span class="pill" title="Venue">'' @ esc venue @ ''</span>''] else []))\<close>

text \<open>The body of the citation block: \<^verbatim>\<open>esc(row["bibtex"]).replace("&amp;#10;", "&#10;")\<close>.\<close>

definition cite :: "string \<Rightarrow> string" where
  "cite bibtex = replace ''&amp;#10;'' ''&#10;'' (esc bibtex)"

definition cite_block :: "string \<Rightarrow> string" where
  \<open>cite_block bibtex =
     ''<details class="tool cite"><summary class="btn" aria-label="Cite this paper"><svg class="i" viewBox="0 0 24 24" fill="none" stroke="currentColor" stroke-width="2" stroke-linecap="round" stroke-linejoin="round"><path d="M14 2H6a2 2 0 0 0-2 2v16l4-4h6a2 2 0 0 0 2-2V4a2 2 0 0 0-2-2z"/></svg><span>Cite</span></summary><div class="dropdown cite-body"><pre><code>''
     @ cite bibtex
     @ ''</code></pre></div></details>''\<close>

text \<open>The loop over the items of the media field. \<open>pills_html\<close> is the list built so far;
  \<^verbatim>\<open>(item.split("|", 1) + [""])[:2]\<close> has two elements, the label and the url.\<close>

fun media_loop :: "string list \<Rightarrow> string list \<Rightarrow> string list" where
  \<open>media_loop pills_html [] = pills_html\<close>
| \<open>media_loop pills_html (item # items) =
     (let label_url = take 2 (split_first (CHR ''|'') item @ [[]]);
          label = strip (label_url ! 0);
          url = strip (label_url ! 1)
      in if label = [] then media_loop pills_html items
         else if url \<noteq> [] then
           media_loop (pills_html @ [''<a class="media-pill" href="'' @ esc url @ ''" rel="noopener">'' @ esc label @ ''</a>'']) items
         else
           media_loop (pills_html @ [''<span class="media-pill">'' @ esc label @ ''</span>'']) items)\<close>

definition media_block :: "string \<Rightarrow> string" where
  \<open>media_block media_raw =
     ''<details class="tool media"><summary class="btn" aria-label="Media coverage"><svg class="i" viewBox="0 0 24 24" fill="none" stroke="currentColor" stroke-width="2" stroke-linecap="round" stroke-linejoin="round"><path d="M19 21H5a2 2 0 0 1-2-2V7a2 2 0 0 1 2-2h10l6 6v8a2 2 0 0 1-2 2z"/></svg><span>Media</span></summary><div class="dropdown"><div class="media-list">''
     @ concat (media_loop [] (split_on (CHR '';'') media_raw))
     @ ''</div></div></details>''\<close>

text \<open>\<^verbatim>\<open>links\<close> starts \<^verbatim>\<open>parts\<close> with the opening tag, appends one element under each
  \<^verbatim>\<open>if\<close>, then the closing tag, and joins. The five definitions below are what each
  \<^verbatim>\<open>if\<close> appends: one element, or nothing.\<close>

definition paper_part :: "row \<Rightarrow> string list" where
  \<open>paper_part r =
     (if field r ''paper_url'' \<noteq> [] then
        [''<a class="btn" href="'' @ esc (field r ''paper_url'') @ ''" itemprop="url">''
         @ esc (let l = strip (if field r ''paper_label'' \<noteq> [] then field r ''paper_label'' else ''Paper'')
                in if l \<noteq> [] then l else ''Paper'')
         @ ''</a>'']
      else [])\<close>

definition slides_part :: "row \<Rightarrow> string list" where
  \<open>slides_part r =
     (if field r ''slides_url'' \<noteq> [] then
        [''<a class="btn" href="'' @ esc (field r ''slides_url'') @ ''">Slides</a>'']
      else [])\<close>

definition doi_part :: "row \<Rightarrow> string list" where
  \<open>doi_part r =
     (if field r ''doi_url'' \<noteq> [] then
        [''<a class="btn" href="'' @ esc (field r ''doi_url'') @ ''">DOI</a>'']
      else [])\<close>

definition cite_part :: "row \<Rightarrow> string list" where
  "cite_part r = (if field r ''bibtex'' \<noteq> [] then [cite_block (field r ''bibtex'')] else [])"

definition media_part :: "row \<Rightarrow> string list" where
  "media_part r =
     (if strip (field r ''media'') \<noteq> [] then [media_block (strip (field r ''media''))] else [])"

definition links :: "row \<Rightarrow> string" where
  \<open>links r =
     join ''\<newline>            ''
       ([''<div class="links">''] @ paper_part r @ slides_part r @ doi_part r @ cite_part r
        @ media_part r @ [''</div>''])\<close>

definition authors_html :: "(string \<Rightarrow> string) \<Rightarrow> row \<Rightarrow> string" where
  "authors_html lower r =
     (let authors = strip (field r ''authors'')
      in if authors = [] \<or> lower authors = ''solo'' then ''solo''
         else ''with '' @ esc authors)"

definition comment_html :: "row \<Rightarrow> string" where
  \<open>comment_html r =
     (let comment = strip (field r ''comment'')
      in if comment \<noteq> [] then
           ''\<newline>        <div class="comment">'' @ ICON_COMMENT @ '' '' @ esc comment @ ''</div>\<newline>    ''
         else [])\<close>

definition abstract_html :: "row \<Rightarrow> string" where
  \<open>abstract_html r =
     (let abstract = strip (replace [CHR 0x0D, CHR 0x0A] [CHR 0x0A] (field r ''abstract''))
      in if abstract \<noteq> [] then
           ''\<newline>        <details class="abstract">\<newline>          <summary><svg class="chev" viewBox="0 0 24 24" fill="none" stroke="currentColor" stroke-width="2" stroke-linecap="round" stroke-linejoin="round"><path d="M9 18l6-6-6-6"/></svg> Show abstract</summary>\<newline>          <div class="abs-body" itemprop="description">''
           @ fmt abstract
           @ ''</div>\<newline>        </details>''
         else [])\<close>

text \<open>The fragment of one row: the f-string of \<^verbatim>\<open>article\<close>, one line of the source after
  the other.\<close>

definition article :: "(string \<Rightarrow> string) \<Rightarrow> row \<Rightarrow> string" where
  \<open>article lower r =
     (let title = esc (field r ''title'')
      in concat
        [''\<newline>'',
         ''      <article class="paper" itemscope itemtype="https://schema.org/ScholarlyArticle">\<newline>'',
         ''        <div class="title-row">\<newline>'',
         ''          <h3 class="title" itemprop="headline">'', title, ''</h3>\<newline>'',
         ''          '', links r, ''\<newline>'',
         ''        </div>\<newline>'',
         ''        <div class="meta">\<newline>'',
         ''          '', pills (field r ''status'') (field r ''year'') (field r ''venue''), ''\<newline>'',
         ''        </div>\<newline>'',
         ''        '', ''<div class="authors">'' @ authors_html lower r @ ''</div>'', ''\<newline>'',
         ''        '', comment_html r, ''\<newline>'',
         ''        '', abstract_html r, ''\<newline>'',
         ''      </article>''])\<close>

text \<open>One item of the media field as the specification words it: the label is the text
  before the first \<^verbatim>\<open>|\<close> and the url the text after it, both trimmed; no label, no badge;
  a url gives a linked badge, no url a plain one.\<close>

definition media_badge :: "string \<Rightarrow> string list" where
  \<open>media_badge item =
     (let label = strip (takeWhile (\<lambda>x. x \<noteq> CHR ''|'') item);
          url = strip (drop (Suc (length (takeWhile (\<lambda>x. x \<noteq> CHR ''|'') item))) item)
      in if label = [] then []
         else if url \<noteq> [] then
           [''<a class="media-pill" href="'' @ esc url @ ''" rel="noopener">'' @ esc label @ ''</a>'']
         else [''<span class="media-pill">'' @ esc label @ ''</span>''])\<close>

section \<open>The document template\<close>

text \<open>\<^verbatim>\<open>SHELL\<close> is the page around the four lists. It is given here line by line, every
  line of the source ending in a newline, in five parts: the lines before the journal
  placeholder, those between two placeholders, and the lines after the last one. Each
  placeholder is a line of its own.\<close>

definition unlines :: "string list \<Rightarrow> string" where
  "unlines ls = concat (map (\<lambda>l. l @ [newline]) ls)"

definition SHELL_head :: "string list" where
  \<open>SHELL_head =
    [''<!DOCTYPE html>'',
     ''<html lang="en">'',
     ''<head>'',
     ''  <meta charset="utf-8" />'',
     ''  <meta name="viewport" content="width=device-width, initial-scale=1" />'',
     ''  <title>Publications '' @ [CHR 0xE2, CHR 0x80, CHR 0x94] @ '' Francisco Castro</title>'',
     ''  <style>'',
     ''    :root{'',
     ''      --accent:#0ea5e9; --text:#111827; --muted:#6b7280; --bg:#ffffff; --card:#f9fafb; --radius:12px;'',
     ''      --profile-img:url('' @ [apostrophe] @ ''./assets/me.jpg'' @ [apostrophe] @ '');'',
     ''    }'',
     ''    @media (prefers-color-scheme: dark){ :root{ --text:#e5e7eb; --muted:#9ca3af; --bg:#0b1020; --card:#0f172a; --accent:#38bdf8 } }'',
     ''    *{box-sizing:border-box}'',
     ''    html,body{margin:0; padding:0; background:var(--bg); color:var(--text); font:15px/1.5 -apple-system,BlinkMacSystemFont,Segoe UI,Roboto,Inter,Helvetica,Arial}'',
     ''    a{color:var(--accent); text-decoration:none}'',
     ''    a:hover{text-decoration:underline}'',
     [],
     ''    .wrap{max-width:860px; margin:40px auto; padding:0 18px}'',
     ''    header{display:flex; align-items:center; justify-content:space-between; margin-bottom:22px}'',
     ''    .site-title{font-weight:700; font-size:20px}'',
     ''    nav{display:flex; gap:16px}'',
     [],
     ''    /* Section header + toggle (collapsible) */'',
     ''    h2{'',
     ''      margin:24px 0 10px; font-size:22px; line-height:1.2;'',
     ''      padding-left:8px; border-left:4px solid var(--accent);'',
     ''      display:flex; align-items:center; gap:10px;'',
     ''    }'',
     ''    h2 .toggle{'',
     ''      appearance:none; background:none; border:0; padding:0; margin:0;'',
     ''      font:inherit; color:inherit; cursor:pointer; display:inline-flex; align-items:center; gap:8px;'',
     ''    }'',
     ''    .caret{ width:14px; height:14px; transition: transform .2s ease; }'',
     ''    .pub-sec.collapsed .paper-list{ display:none; }'',
     ''    .pub-sec.collapsed h2 .caret{ transform: rotate(-90deg); }'',
     [],
     ''    .subtle{color:var(--muted)}'',
     [],
     ''    :root{ /* Section accent colors */'',
     ''      --accent-journal: var(--accent);'',
     ''      --accent-conference: #6366f1; /* indigo */'',
     ''      --accent-working: #f59e0b;    /* amber */'',
     ''      --accent-other: #64748b;      /* slate */'',
     ''    }'',
     [],
     ''    /* --- Single-column compact list --- */'',
     ''    .paper-list{display:block; counter-reset: paper}'',
     ''    .paper{position:relative; padding:10px 12px 8px 40px; margin:8px 0; border-left:3px solid var(--accent); background:transparent; border-radius:0}'',
     ''    .paper::before{counter-increment: paper; content: counter(paper); position:absolute; left:8px; top:10px; width:20px; height:20px; border-radius:999px; display:grid; place-items:center; font-weight:700; font-size:12px; color:var(--text); background:var(--card); border:1px solid rgba(0,0,0,.12)}'',
     ''    @media (prefers-color-scheme: dark){ .paper::before{border-color:rgba(255,255,255,.18)} }'',
     ''    .paper + .paper{border-top:1px solid rgba(0,0,0,.06)}'',
     ''    @media (prefers-color-scheme: dark){ .paper + .paper{border-color:rgba(255,255,255,.08)} }'',
     [],
     ''    /* Per-section accent overrides */'',
     ''    #journal{ border-left-color: var(--accent-journal) }'',
     ''    #journal-papers .paper{ border-left-color: var(--accent-journal) }'',
     [],
     ''    #working{ border-left-color: var(--accent-working) }'',
     ''    #working-papers .paper{ border-left-color: var(--accent-working) }'',
     [],
     ''    #conference{ border-left-color: var(--accent-conference) }'',
     ''    #conf-papers .paper{ border-left-color: var(--accent-conference) }'',
     [],
     ''    #other{ border-left-color: var(--accent-other) }'',
     ''    #other-articles .paper{ border-left-color: var(--accent-other) }'',
     [],
     ''    .title-row{display:flex; align-items:start; gap:10px}'',
     ''    .title{font-size:16.5px; font-weight:650; margin:0; line-height:1.25; flex:1}'',
     [],
     ''    .links{display:flex; gap:6px; flex-wrap:wrap; align-items:center; position:relative}'',
     ''    .btn{display:inline-flex; align-items:center; gap:6px; padding:3px 7px; border-radius:9px; font-size:12px; border:1px solid rgba(0,0,0,.10); background:#fff0}'',
     ''    @media (prefers-color-scheme: dark){ .btn{border-color:rgba(255,255,255,.15)} }'',
     [],
     ''    .meta{display:flex; flex-wrap:wrap; gap:8px; margin:4px 0 0 0; font-size:12.5px; color:var(--muted)}'',
     ''    .authors{margin:2px 0 0 0; font-size:12.5px; color:var(--muted)}'',
     [],
     ''    /* Pill + icon alignment */'',
     ''    .pill{'',
     ''      display:inline-flex; align-items:center; gap:6px;'',
     ''      padding:2px 8px; line-height:1; border-radius:999px;'',
     ''      border:1px solid rgba(0,0,0,.10);'',
     ''    }'',
     ''    @media (prefers-color-scheme: dark){ .pill{border-color:rgba(255,255,255,.18)} }'',
     ''    .i{width:14px; height:14px; display:inline-block; flex:0 0 auto; vertical-align:middle; transform:translateY(.5px)}'',
     [],
     ''    /* Comment line */'',
     ''    .comment{margin:4px 0 0; font-size:12.5px; color:var(--muted); display:flex; align-items:center; gap:6px}'',
     ''    .comment .i{width:14px; height:14px}'',
     [],
     ''    /* Abstract */'',
     ''    details.abstract{margin-top:6px}'',
     ''    details.abstract summary{'',
     ''      list-style:none; cursor:pointer; display:inline-flex; align-items:center; gap:8px;'',
     ''      user-select:none; color:var(--accent); font-weight:500; font-size:12.5px;'',
     ''    }'',
     ''    details.abstract summary::-webkit-details-marker{display:none}'',
     ''    .chev{width:12px; height:12px; transition:transform .2s ease}'',
     ''    details[open] .chev{transform: rotate(90deg)}'',
     ''    .abs-body{margin:6px 0 0; font-size:13px}'',
     [],
     ''    /* Masthead */'',
     ''    .masthead{display:flex; align-items:center; gap:12px; padding:10px 0 8px; border-bottom:1px solid rgba(0,0,0,.06); margin-bottom:8px}'',
     ''    @media (prefers-color-scheme: dark){ .masthead{border-color:rgba(255,255,255,.08)} }'',
     ''    .avatar{width:56px; height:56px; border-radius:999px; background:var(--profile-img) center/cover no-repeat; border:1px solid rgba(0,0,0,.12)}'',
     ''    @media (prefers-color-scheme: dark){ .avatar{border-color:rgba(255,255,255,.18)} }'',
     ''    .page-title{margin:0; font-size:18px; font-weight:750}'',
     ''    .page-subtle{margin:2px 0 0 0; color:var(--muted); font-size:13.5px}'',
     ''    .head-actions{display:none} /* old '' @ [apostrophe] @ ''Show all abstracts'' @ [apostrophe] @ '' hidden */'',
     [],
     ''    /* Subnav */'',
     ''    .subnav{position:sticky; top:0; background:var(--bg); z-index:5; border-bottom:1px solid rgba(0,0,0,.06); padding:8px 0; margin:6px 0 12px}'',
     ''    @media (prefers-color-scheme: dark){ .subnav{border-color:rgba(255,255,255,.08)} }'',
     ''    .subnav-inner{display:flex; align-items:center; gap:12px; flex-wrap:wrap}'',
     ''    .subnav-name{font-weight:700; color:var(--text)}'',
     ''    .subnav-links{display:flex; gap:6px; flex-wrap:wrap}'',
     ''    .subnav a{display:inline-block; padding:4px 8px; border-radius:8px; font-size:13px; color:var(--muted); border:1px solid transparent}'',
     ''    .subnav a:hover{border-color:rgba(0,0,0,.10); text-decoration:none}'',
     ''    .subnav a.active{color:var(--text); border-color:rgba(0,0,0,.10); background:rgba(0,0,0,.03)}'',
     ''    @media (prefers-color-scheme: dark){ .subnav a.active{background:rgba(255,255,255,.06); border-color:rgba(255,255,255,.18)} }'',
     ''    h2{scroll-margin-top:60px}'',
     [],
     ''    /* Cite/Media dropdowns */'',
     ''    details.cite, details.media{margin-top:6px}'',
     ''    details.cite summary, details.media summary{list-style:none; cursor:pointer; display:inline-flex; align-items:center; gap:6px; user-select:none; color:var(--accent); font-weight:500}'',
     ''    details.cite summary::-webkit-details-marker, details.media summary::-webkit-details-marker{display:none}'',
     ''    .cite-body{margin:6px 0 0; font-size:12.5px; background:var(--card); border-radius:8px; padding:8px 10px; overflow:auto}'',
     ''    .media-list{display:flex; flex-wrap:wrap; gap:6px; margin-top:6px}'',
     ''    .media-pill{display:inline-flex; align-items:center; gap:6px; font-size:12px; border:1px solid rgba(0,0,0,.10); padding:3px 7px; border-radius:999px; background:#fff0}'',
     [],
     ''    /* Inline tools */'',
     ''    .links details.tool{position:relative; display:inline-block}'',
     ''    .links details.tool summary{padding:4px; border-radius:8px; border:1px solid rgba(0,0,0,.10)}'',
     ''    @media (prefers-color-scheme: dark){ .links details.tool summary{border-color:rgba(255,255,255,.15)} }'',
     ''    .links details.tool .dropdown{display:none; position:absolute; right:0; top:calc(100% + 6px); min-width:320px; max-width:520px; background:var(--card); border:1px solid rgba(0,0,0,.1); border-radius:10px; padding:8px 10px; box-shadow:0 6px 24px rgba(0,0,0,.08); z-index:20}'',
     ''    @media (prefers-color-scheme: dark){ .links details.tool .dropdown{border-color:rgba(255,255,255,.15)} }'',
     ''    .links details.tool[open] .dropdown{display:block}'',
     ''    .links details.cite, .links details.media{margin-top:0}'',
     ''    .links .tool .i{width:16px; height:16px}'',
     [],
     ''    /* Dropdown positioning helpers */'',
     ''    .links details.tool.align-left .dropdown{right:auto; left:0}'',
     ''    .links details.tool.full .dropdown{left:0; right:0; width:auto; max-width:none}'',
     [],
     ''    /* Copy BibTeX button */'',
     ''    .copy-row{display:flex; justify-content:flex-end; margin-bottom:6px}'',
     ''    .copy-btn{display:inline-flex; align-items:center; gap:6px; padding:3px 8px; border-radius:8px; font-size:12px; border:1px solid rgba(0,0,0,.10); background:#fff0; cursor:pointer}'',
     ''    .copy-btn:hover{transform:translateY(-1px)}'',
     ''  </style>'',
     ''  <script>'',
     ''    window.MathJax = {'',
     ''      tex: { inlineMath: [['' @ [apostrophe] @ ''$'' @ [apostrophe] @ '','' @ [apostrophe] @ ''$'' @ [apostrophe] @ ''], ['' @ [apostrophe, CHR 0x5C, CHR 0x5C] @ ''('' @ [apostrophe] @ '','' @ [apostrophe, CHR 0x5C, CHR 0x5C] @ '')'' @ [apostrophe] @ '']], displayMath: [['' @ [apostrophe] @ ''$$'' @ [apostrophe] @ '','' @ [apostrophe] @ ''$$'' @ [apostrophe] @ ''], ['' @ [apostrophe, CHR 0x5C, CHR 0x5C] @ ''['' @ [apostrophe] @ '','' @ [apostrophe, CHR 0x5C, CHR 0x5C] @ '']'' @ [apostrophe] @ '']], processEscapes: true },'',
     ''      options: { skipHtmlTags: ['' @ [apostrophe] @ ''script'' @ [apostrophe] @ '','' @ [apostrophe] @ ''noscript'' @ [apostrophe] @ '','' @ [apostrophe] @ ''style'' @ [apostrophe] @ '','' @ [apostrophe] @ ''textarea'' @ [apostrophe] @ '','' @ [apostrophe] @ ''pre'' @ [apostrophe] @ '','' @ [apostrophe] @ ''code'' @ [apostrophe] @ ''] }'',
     ''    };'',
     ''  </script>'',
     ''  <script async src="https://cdn.jsdelivr.net/npm/mathjax@3/es5/tex-chtml.js"></script>'',
     ''</head>'',
     ''<body>'',
     ''  <div class="wrap">'',
     ''    <header>'',
     ''      <div class="site-title">Francisco Castro</div>'',
     ''      <nav>'',
     ''        <a href="./index.html">Home</a>'',
     ''        <a href="./publications.html" aria-current="page">Publications</a>'',
     ''        <a href="./teaching.html">Teaching</a>'',
     ''        <a href="./cv.html">CV</a>'',
     ''      </nav>'',
     ''    </header>'',
     [],
     ''    <section class="masthead" role="region" aria-label="Page header">'',
     ''      <div class="avatar" aria-hidden="true"></div>'',
     ''      <div>'',
     ''        <h1 class="page-title">Publications</h1>'',
     ''        <p class="page-subtle">Browse my research: journal papers, conference proceedings, and working papers.</p>'',
     ''      </div>'',
     ''    </section>'',
     [],
     ''    <nav class="subnav" aria-label="Publications sections">'',
     ''      <div class="subnav-inner">'',
     ''        <div class="subnav-links">'',
     ''          <a href="#journal">Journal Papers</a>'',
     ''          <a href="#conference">Conference Proceedings</a>'',
     ''          <a href="#working">Working Papers</a>'',
     ''          <a href="#other">Other Articles</a>'',
     ''        </div>'',
     ''      </div>'',
     ''    </nav>'',
     [],
     ''    <section class="pub-sec" data-sec="journal">'',
     ''      <h2 id="journal">'',
     ''        <button class="toggle" aria-expanded="true" aria-controls="journal-papers">'',
     ''          <svg class="caret" viewBox="0 0 24 24" fill="none" stroke="currentColor" stroke-width="2"'',
     ''               stroke-linecap="round" stroke-linejoin="round" aria-hidden="true">'',
     ''            <path d="M6 9l6 6 6-6"/>'',
     ''          </svg>'',
     ''          Journal Papers'',
     ''        </button>'',
     ''      </h2>'',
     ''      <div class="paper-list" id="journal-papers">'']\<close>

definition SHELL_conference :: "string list" where
  \<open>SHELL_conference =
    [''      </div>'',
     ''    </section>'',
     [],
     [],
     [],
     ''    <section class="pub-sec" data-sec="conference">'',
     ''      <h2 id="conference">'',
     ''        <button class="toggle" aria-expanded="true" aria-controls="conf-papers">'',
     ''          <svg class="caret" viewBox="0 0 24 24" fill="none" stroke="currentColor" stroke-width="2"'',
     ''               stroke-linecap="round" stroke-linejoin="round" aria-hidden="true">'',
     ''            <path d="M6 9l6 6 6-6"/>'',
     ''          </svg>'',
     ''          Conference Proceedings'',
     ''        </button>'',
     ''      </h2>'',
     ''      <div class="paper-list" id="conf-papers">'']\<close>

definition SHELL_working :: "string list" where
  \<open>SHELL_working =
    [''      </div>'',
     ''    </section>'',
     [],
     ''    <section class="pub-sec" data-sec="working">'',
     ''      <h2 id="working">'',
     ''        <button class="toggle" aria-expanded="true" aria-controls="working-papers">'',
     ''          <svg class="caret" viewBox="0 0 24 24" fill="none" stroke="currentColor" stroke-width="2"'',
     ''               stroke-linecap="round" stroke-linejoin="round" aria-hidden="true">'',
     ''            <path d="M6 9l6 6 6-6"/>'',
     ''          </svg>'',
     ''          Working Papers'',
     ''        </button>'',
     ''      </h2>'',
     ''      <div class="paper-list" id="working-papers">'']\<close>

definition SHELL_other :: "string list" where
  \<open>SHELL_other =
    [''      </div>'',
     ''    </section>'',
     [],
     ''    <section class="pub-sec" data-sec="other">'',
     ''      <h2 id="other">'',
     ''        <button class="toggle" aria-expanded="true" aria-controls="other-articles">'',
     ''          <svg class="caret" viewBox="0 0 24 24" fill="none" stroke="currentColor" stroke-width="2"'',
     ''               stroke-linecap="round" stroke-linejoin="round" aria-hidden="true">'',
     ''            <path d="M6 9l6 6 6-6"/>'',
     ''          </svg>'',
     ''          Other Articles'',
     ''        </button>'',
     ''      </h2>'',
     ''      <div class="paper-list" id="other-articles">'']\<close>

definition SHELL_tail :: "string list" where
  \<open>SHELL_tail =
    [''      </div>'',
     ''    </section>'',
     [],
     ''  </div>'',
     [],
     ''  <script>'',
     ''    // Highlight current section in subnav as you scroll'',
     ''    (function(){'',
     ''      const ids = ['' @ [apostrophe] @ ''journal'' @ [apostrophe] @ '','' @ [apostrophe] @ ''conference'' @ [apostrophe] @ '','' @ [apostrophe] @ ''working'' @ [apostrophe] @ '','' @ [apostrophe] @ ''other'' @ [apostrophe] @ ''];'',
     ''      const linkFor = id => document.querySelector('' @ [apostrophe] @ ''.subnav a[href="#'' @ [apostrophe] @ ''+id+'' @ [apostrophe] @ ''"]'' @ [apostrophe] @ '');'',
     ''      const links = new Map(ids.map(id => [id, linkFor(id)]));'',
     ''      const obs = new IntersectionObserver((entries)=>{'',
     ''        entries.forEach(e => {'',
     ''          if (e.isIntersecting) {'',
     ''            links.forEach(a => a && a.classList.remove('' @ [apostrophe] @ ''active'' @ [apostrophe] @ ''));'',
     ''            const a = links.get(e.target.id);'',
     ''            if (a) a.classList.add('' @ [apostrophe] @ ''active'' @ [apostrophe] @ '');'',
     ''          }'',
     ''        });'',
     ''      }, { rootMargin: '' @ [apostrophe] @ ''-55% 0px -40% 0px'' @ [apostrophe] @ '', threshold: 0.01 });'',
     ''      ids.forEach(id => { const el = document.getElementById(id); if (el) obs.observe(el); });'',
     ''    })();'',
     ''  </script>'',
     ''  <script>'',
     ''    // Close Cite/Media dropdowns when clicking outside or pressing Esc'',
     ''    (function(){'',
     ''      function closeAllExcept(target){'',
     ''        document.querySelectorAll('' @ [apostrophe] @ ''.links details.tool[open]'' @ [apostrophe] @ '').forEach(d => {'',
     ''          if (!target || !d.contains(target)) d.removeAttribute('' @ [apostrophe] @ ''open'' @ [apostrophe] @ '');'',
     ''        });'',
     ''      }'',
     ''      document.addEventListener('' @ [apostrophe] @ ''click'' @ [apostrophe] @ '', function(e){ closeAllExcept(e.target); });'',
     ''      document.addEventListener('' @ [apostrophe] @ ''keydown'' @ [apostrophe] @ '', function(e){ if (e.key === '' @ [apostrophe] @ ''Escape'' @ [apostrophe] @ '') closeAllExcept(null); });'',
     ''    })();'',
     ''  </script>'',
     ''  <script>'',
     ''    (function(){'',
     ''      // Media (n) badge'',
     ''      document.querySelectorAll('' @ [apostrophe] @ ''.links details.media'' @ [apostrophe] @ '').forEach(function(det){'',
     ''        var count = det.querySelectorAll('' @ [apostrophe] @ ''.media-list a'' @ [apostrophe] @ '').length;'',
     ''        var label = det.querySelector('' @ [apostrophe] @ ''summary span'' @ [apostrophe] @ '');'',
     ''        if (label) { label.textContent = count ? '' @ [apostrophe] @ ''Media ('' @ [apostrophe] @ ''+count+'' @ [apostrophe] @ '')'' @ [apostrophe] @ '' : '' @ [apostrophe] @ ''Media'' @ [apostrophe] @ ''; }'',
     ''      });'',
     [],
     ''      // Copy BibTeX button'',
     ''      document.querySelectorAll('' @ [apostrophe] @ ''.links details.cite'' @ [apostrophe] @ '').forEach(function(det){'',
     ''        var drop = det.querySelector('' @ [apostrophe] @ ''.dropdown'' @ [apostrophe] @ ''); if (!drop) return;'',
     ''        if (!drop.querySelector('' @ [apostrophe] @ ''.copy-row'' @ [apostrophe] @ '')){'',
     ''          var row = document.createElement('' @ [apostrophe] @ ''div'' @ [apostrophe] @ ''); row.className='' @ [apostrophe] @ ''copy-row'' @ [apostrophe] @ '';'',
     ''          var btn = document.createElement('' @ [apostrophe] @ ''button'' @ [apostrophe] @ ''); btn.type='' @ [apostrophe] @ ''button'' @ [apostrophe] @ ''; btn.className='' @ [apostrophe] @ ''copy-btn'' @ [apostrophe] @ ''; btn.textContent='' @ [apostrophe] @ ''Copy'' @ [apostrophe] @ '';'',
     ''          row.appendChild(btn); drop.insertBefore(row, drop.firstChild);'',
     ''          btn.addEventListener('' @ [apostrophe] @ ''click'' @ [apostrophe] @ '', function(){'',
     ''            var pre = drop.querySelector('' @ [apostrophe] @ ''pre'' @ [apostrophe] @ ''); var txt = pre ? pre.innerText : '' @ [apostrophe, apostrophe] @ '';'',
     ''            if (navigator.clipboard && navigator.clipboard.writeText){'',
     ''              navigator.clipboard.writeText(txt).then(function(){ var prev=btn.textContent; btn.textContent='' @ [apostrophe] @ ''Copied!'' @ [apostrophe] @ ''; setTimeout(function(){ btn.textContent=prev;}, 1200); });'',
     ''            }'',
     ''          });'',
     ''        }'',
     ''      });'',
     [],
     ''      // Smarter overlay positioning on open'',
     ''      function positionDropdown(det){'',
     ''        det.classList.remove('' @ [apostrophe] @ ''align-left'' @ [apostrophe] @ '','' @ [apostrophe] @ ''full'' @ [apostrophe] @ '');'',
     ''        var drop = det.querySelector('' @ [apostrophe] @ ''.dropdown'' @ [apostrophe] @ ''); if (!drop) return;'',
     ''        var rect = drop.getBoundingClientRect();'',
     ''        var vw = Math.max(document.documentElement.clientWidth, window.innerWidth || 0);'',
     ''        if (rect.right > vw - 8) det.classList.add('' @ [apostrophe] @ ''align-left'' @ [apostrophe] @ '');'',
     ''        if (rect.width > vw * 0.92 || vw < 500) det.classList.add('' @ [apostrophe] @ ''full'' @ [apostrophe] @ '');'',
     ''      }'',
     ''      document.querySelectorAll('' @ [apostrophe] @ ''.links details.tool'' @ [apostrophe] @ '').forEach(function(det){'',
     ''        det.addEventListener('' @ [apostrophe] @ ''toggle'' @ [apostrophe] @ '', function(){ if (det.open) positionDropdown(det); });'',
     ''      });'',
     ''      window.addEventListener('' @ [apostrophe] @ ''resize'' @ [apostrophe] @ '', function(){'',
     ''        document.querySelectorAll('' @ [apostrophe] @ ''.links details.tool[open]'' @ [apostrophe] @ '').forEach(positionDropdown);'',
     ''      });'',
     ''    })();'',
     ''  </script>'',
     ''  <script>'',
     ''    // Collapsible sections (expanded by default)'',
     ''    (function(){'',
     ''      document.querySelectorAll('' @ [apostrophe] @ ''.pub-sec'' @ [apostrophe] @ '').forEach(function(sec){'',
     ''        var btn  = sec.querySelector('' @ [apostrophe] @ ''h2 .toggle'' @ [apostrophe] @ '');'',
     ''        var list = sec.querySelector('' @ [apostrophe] @ ''.paper-list'' @ [apostrophe] @ '');'',
     ''        if (!btn || !list) return;'',
     [],
     ''        // Ensure expanded on load'',
     ''        sec.classList.remove('' @ [apostrophe] @ ''collapsed'' @ [apostrophe] @ '');'',
     ''        list.hidden = false;'',
     ''        btn.setAttribute('' @ [apostrophe] @ ''aria-expanded'' @ [apostrophe] @ '', '' @ [apostrophe] @ ''true'' @ [apostrophe] @ '');'',
     [],
     ''        btn.addEventListener('' @ [apostrophe] @ ''click'' @ [apostrophe] @ '', function(){'',
     ''          var collapsed = sec.classList.toggle('' @ [apostrophe] @ ''collapsed'' @ [apostrophe] @ '');'',
     ''          list.hidden = collapsed;'',
     ''          btn.setAttribute('' @ [apostrophe] @ ''aria-expanded'' @ [apostrophe] @ '', String(!collapsed));'',
     ''        });'',
     ''      });'',
     ''    })();'',
     ''  </script>'',
     ''</body>'',
     ''</html>'']\<close>


definition SHELL :: string where
  "SHELL = unlines (SHELL_head @ [''{{JOURNAL_ITEMS}}''] @ SHELL_conference @ [''{{CONF_ITEMS}}'']
                    @ SHELL_working @ [''{{WORKING_ITEMS}}''] @ SHELL_other @ [''{{OTHER_ITEMS}}'']
                    @ SHELL_tail)"

text \<open>The template with four given texts on the lines of the four placeholders, in the
  order of the page: journal, conference, working, other.\<close>

definition page :: "string \<Rightarrow> string \<Rightarrow> string \<Rightarrow> string \<Rightarrow> string" where
  "page xj xc xw xo =
     unlines (SHELL_head @ [xj] @ SHELL_conference @ [xc] @ SHELL_working @ [xw]
              @ SHELL_other @ [xo] @ SHELL_tail)"

section \<open>Reading the table\<close>

text \<open>
  \<^verbatim>\<open>read_rows\<close> iterates a \<^verbatim>\<open>csv.DictReader\<close>. The tokenising of the file is left to
  \<^verbatim>\<open>csv.reader\<close>: the input here is the list of rows it yields, each a list of cells.
  The reader class of the standard library takes the first row as the field names, skips
  empty rows, and makes a dictionary of each other row: the cells beyond the field names
  go as a list under the key \<^verbatim>\<open>None\<close>, and a field name without a cell gets the value
  \<^verbatim>\<open>None\<close>. A dictionary is an association list in insertion order.
\<close>

datatype cell = Str string | NoValue | Rest "string list"

type_synonym raw_row = "(string option \<times> cell) list"

text \<open>\<^verbatim>\<open>d[k] = v\<close>: a known key keeps its place.\<close>

fun dict_set :: "'k \<Rightarrow> 'v \<Rightarrow> ('k \<times> 'v) list \<Rightarrow> ('k \<times> 'v) list" where
  "dict_set k v [] = [(k, v)]"
| "dict_set k v ((k', v') # d) = (if k = k' then (k, v) # d else (k', v') # dict_set k v d)"

definition row_dict :: "string list \<Rightarrow> string list \<Rightarrow> raw_row" where
  "row_dict fieldnames r =
     (let d = fold (\<lambda>(k, v). dict_set k v) (zip (map Some fieldnames) (map Str r)) [];
          lf = length fieldnames;
          lr = length r
      in if lf < lr then dict_set None (Rest (drop lf r)) d
         else if lf > lr then fold (\<lambda>key. dict_set (Some key) NoValue) (drop lr fieldnames) d
         else d)"

definition dict_reader :: "string list list \<Rightarrow> raw_row list" where
  "dict_reader table =
     (case table of
        [] \<Rightarrow> []
      | fieldnames # rows \<Rightarrow> map (row_dict fieldnames) (filter (\<lambda>r. r \<noteq> []) rows))"

text \<open>The exceptions that can leave \<^verbatim>\<open>main\<close>; \<^verbatim>\<open>sys.exit(1)\<close> raises \<^verbatim>\<open>SystemExit\<close>.\<close>

datatype exc = AttributeError | KeyError | SystemExit nat

text \<open>\<^verbatim>\<open>{k.strip(): (v or "").strip() for k, v in r.items()}\<close>. The key is evaluated first:
  \<^verbatim>\<open>None\<close> has no \<^verbatim>\<open>strip\<close>, and neither has a list.\<close>

fun read_row :: "raw_row \<Rightarrow> row \<Rightarrow> exc + row" where
  "read_row [] acc = Inr acc"
| "read_row ((k, v) # items) acc =
     (case k of
        None \<Rightarrow> Inl AttributeError
      | Some key \<Rightarrow>
          (case v of
             Str s \<Rightarrow> read_row items (acc(strip key \<mapsto> strip s))
           | NoValue \<Rightarrow> read_row items (acc(strip key \<mapsto> strip []))
           | Rest l \<Rightarrow> (if l = [] then read_row items (acc(strip key \<mapsto> strip []))
                       else Inl AttributeError)))"

fun read_loop :: "raw_row list \<Rightarrow> row list \<Rightarrow> exc + row list" where
  "read_loop [] rows = Inr rows"
| "read_loop (r # rs) rows =
     (case read_row r Map.empty of
        Inl e \<Rightarrow> Inl e
      | Inr d \<Rightarrow> read_loop rs (rows @ [d]))"

definition read_rows :: "string list list \<Rightarrow> exc + row list" where
  "read_rows table = read_loop (dict_reader table) []"

section \<open>Buckets and the whole run\<close>

type_synonym buckets = "(string \<times> string list) list"

definition getitem :: "buckets \<Rightarrow> string \<Rightarrow> exc + string list" where
  "getitem b k = (case map_of b k of None \<Rightarrow> Inl KeyError | Some v \<Rightarrow> Inr v)"

text \<open>The first loop of \<^verbatim>\<open>main\<close>: \<^verbatim>\<open>buckets[normalize_section(r.get("section",""))].append(article(r))\<close>.\<close>

fun fill :: "(string \<Rightarrow> string) \<Rightarrow> row list \<Rightarrow> buckets \<Rightarrow> exc + buckets" where
  "fill lower [] b = Inr b"
| "fill lower (r # rs) b =
     (case getitem b (normalize_section lower (field r ''section'')) of
        Inl e \<Rightarrow> Inl e
      | Inr v \<Rightarrow>
          fill lower rs
            (dict_set (normalize_section lower (field r ''section'')) (v @ [article lower r]) b))"

text \<open>The second loop: every list is reversed in place.\<close>

definition reverse_all :: "buckets \<Rightarrow> buckets" where
  "reverse_all b = map (\<lambda>(k, v). (k, rev v)) b"

definition bucketing :: "(string \<Rightarrow> string) \<Rightarrow> row list \<Rightarrow> exc + buckets" where
  "bucketing lower rows =
     (case fill lower rows [(''journal'', []), (''working'', []), (''conference'', []), (''other'', [])] of
        Inl e \<Rightarrow> Inl e
      | Inr b \<Rightarrow> Inr (reverse_all b))"

text \<open>\<^verbatim>\<open>"\n".join(items) or "\n"\<close>.\<close>

definition slot_text :: "string list \<Rightarrow> string" where
  "slot_text items = (if join [newline] items = [] then [newline] else join [newline] items)"

definition fill_shell :: "buckets \<Rightarrow> exc + string" where
  "fill_shell b =
     (case getitem b ''journal'' of Inl e \<Rightarrow> Inl e | Inr j \<Rightarrow>
      (case getitem b ''working'' of Inl e \<Rightarrow> Inl e | Inr w \<Rightarrow>
       (case getitem b ''conference'' of Inl e \<Rightarrow> Inl e | Inr c \<Rightarrow>
        (case getitem b ''other'' of Inl e \<Rightarrow> Inl e | Inr ot \<Rightarrow>
           Inr (replace ''{{OTHER_ITEMS}}'' (slot_text ot)
                 (replace ''{{CONF_ITEMS}}'' (slot_text c)
                   (replace ''{{WORKING_ITEMS}}'' (slot_text w)
                     (replace ''{{JOURNAL_ITEMS}}'' (slot_text j) SHELL))))))))"

text \<open>\<^verbatim>\<open>str(n)\<close> for a natural number.\<close>

fun show_nat :: "nat \<Rightarrow> string" where
  "show_nat n =
     (if n < 10 then [''0123456789'' ! n]
      else show_nat (n div 10) @ [''0123456789'' ! (n mod 10)])"

declare show_nat.simps [simp del]

text \<open>
  The world around a run: the table in \<^verbatim>\<open>publications.csv\<close> (\<open>None\<close> when the file does not
  exist), the content of \<^verbatim>\<open>publications.html\<close> (\<open>None\<close> when there is none), and what was
  written to standard error and standard output. \<^verbatim>\<open>main\<close> returns the exception that ends
  the run, if any, and the world it leaves. \<open>out_path\<close> is \<^verbatim>\<open>OUT_FILE\<close>, which depends on
  where the script lies. The traceback Python prints for an uncaught exception is not
  part of the model.
\<close>

record world =
  csv_file :: "string list list option"
  out_file :: "string option"
  stderr :: string
  stdout :: string

definition main :: "(string \<Rightarrow> string) \<Rightarrow> string \<Rightarrow> world \<Rightarrow> exc option \<times> world" where
  "main lower out_path w =
     (case csv_file w of
        None \<Rightarrow>
          (Some (SystemExit 1),
           w\<lparr>stderr := stderr w
                 @ ''ERROR: publications.csv not found next to build_publications.py\<newline>''
                 @ ''Create the CSV (see template) and run again.\<newline>''\<rparr>)
      | Some table \<Rightarrow>
          (case read_rows table of
             Inl e \<Rightarrow> (Some e, w)
           | Inr rows \<Rightarrow>
               (case bucketing lower rows of
                  Inl e \<Rightarrow> (Some e, w)
                | Inr b \<Rightarrow>
                    (case fill_shell b of
                       Inl e \<Rightarrow> (Some e, w)
                     | Inr html_out \<Rightarrow>
                         (None,
                          w\<lparr>out_file := Some html_out,
                            stdout := stdout w @ ''Wrote '' @ out_path @ '' (''
                              @ show_nat (sum_list (map (\<lambda>(k, v). length v) b))
                              @ '' items).\<newline>''\<rparr>)))))"

text \<open>The fragments of the rows whose section normalises to \<open>k\<close>, in the order of the
  input: what the bucket \<open>k\<close> should hold before it is reversed.\<close>

definition section_items :: "(string \<Rightarrow> string) \<Rightarrow> string \<Rightarrow> row list \<Rightarrow> string list" where
  "section_items lower k rows =
     map (article lower) (filter (\<lambda>r. normalize_section lower (field r ''section'') = k) rows)"



section \<open>Properties\<close>

lemma startswith_iff: "startswith s p \<longleftrightarrow> (\<exists>r. s = p @ r)"
proof
  assume "startswith s p"
  then have "s = p @ drop (length p) s"
    unfolding startswith_def by (metis append_take_drop_id)
  then show "\<exists>r. s = p @ r" ..
next
  assume "\<exists>r. s = p @ r"
  then show "startswith s p"
    unfolding startswith_def by auto
qed

lemma normalize_section_cases: "normalize_section lower s =
      (if \<exists>r. lower (strip s) = ''jour'' @ r then ''journal''
       else if \<exists>r. lower (strip s) = ''work'' @ r then ''working''
       else if \<exists>r. lower (strip s) = ''conf'' @ r then ''conference''
       else ''other'')"
    unfolding normalize_section_def Let_def startswith_iff by simp

lemma lowers_ascii_ascii_lower: "lowers_ascii ascii_lower"
  by (simp add: lowers_ascii_def)

lemma lowers_asciiD: "lowers_ascii lower \<Longrightarrow> ascii s \<Longrightarrow> lower s = ascii_lower s"
  by (simp add: lowers_ascii_def)

text \<open>
  Claim C2. A section value is trimmed and lowercased; a value then starting with
  "jour" is a journal, with "work" a working paper, with "conf" a conference paper, and
  every other value, the empty one too, is "other". The three prefixes exclude each
  other, so the order of the tests does not matter. This holds whatever \<^verbatim>\<open>str.lower\<close>
  does. With its action on ASCII text, "Journal Article", "conf.", "Working Paper" and
  "misc" fall into journal, conference, working and other. Trimming takes the no-break
  space away as it takes the space.
\<close>

theorem normalize_section_by_prefix:
  "((\<exists>r. lower (strip s) = ''jour'' @ r) \<longrightarrow> normalize_section lower s = ''journal'')
   \<and> ((\<exists>r. lower (strip s) = ''work'' @ r) \<longrightarrow> normalize_section lower s = ''working'')
   \<and> ((\<exists>r. lower (strip s) = ''conf'' @ r) \<longrightarrow> normalize_section lower s = ''conference'')
   \<and> (\<not> (\<exists>r. lower (strip s) = ''jour'' @ r) \<and> \<not> (\<exists>r. lower (strip s) = ''work'' @ r)
        \<and> \<not> (\<exists>r. lower (strip s) = ''conf'' @ r) \<longrightarrow> normalize_section lower s = ''other'')
   \<and> (lowers_ascii lower \<longrightarrow>
        normalize_section lower [] = ''other''
        \<and> normalize_section lower ''Journal Article'' = ''journal''
        \<and> normalize_section lower ''conf.'' = ''conference''
        \<and> normalize_section lower ''Working Paper'' = ''working''
        \<and> normalize_section lower ''misc'' = ''other''
        \<and> normalize_section lower ([CHR 0xC2, CHR 0xA0] @ ''Journal '' @ [CHR 0xE2, CHR 0x80, CHR 0x83])
            = ''journal'')"
proof -
  have j: "(\<exists>r. lower (strip s) = ''jour'' @ r) \<longrightarrow> normalize_section lower s = ''journal''"
    by (simp add: normalize_section_cases)
  have w: "(\<exists>r. lower (strip s) = ''work'' @ r) \<longrightarrow> normalize_section lower s = ''working''"
    by (auto simp add: normalize_section_cases)
  have c: "(\<exists>r. lower (strip s) = ''conf'' @ r) \<longrightarrow> normalize_section lower s = ''conference''"
    by (auto simp add: normalize_section_cases)
  have o: "\<not> (\<exists>r. lower (strip s) = ''jour'' @ r) \<and> \<not> (\<exists>r. lower (strip s) = ''work'' @ r)
        \<and> \<not> (\<exists>r. lower (strip s) = ''conf'' @ r) \<longrightarrow> normalize_section lower s = ''other''"
    by (simp add: normalize_section_cases)
  have ex: "lowers_ascii lower \<longrightarrow>
        normalize_section lower [] = ''other''
        \<and> normalize_section lower ''Journal Article'' = ''journal''
        \<and> normalize_section lower ''conf.'' = ''conference''
        \<and> normalize_section lower ''Working Paper'' = ''working''
        \<and> normalize_section lower ''misc'' = ''other''
        \<and> normalize_section lower ([CHR 0xC2, CHR 0xA0] @ ''Journal '' @ [CHR 0xE2, CHR 0x80, CHR 0x83])
            = ''journal''"
  proof
    assume l: "lowers_ascii lower"
    have s: "strip [] = []" "strip ''Journal Article'' = ''Journal Article''"
      "strip ''conf.'' = ''conf.''" "strip ''Working Paper'' = ''Working Paper''"
      "strip ''misc'' = ''misc''"
      "strip ([CHR 0xC2, CHR 0xA0] @ ''Journal '' @ [CHR 0xE2, CHR 0x80, CHR 0x83]) = ''Journal''"
      by code_simp+
    have a: "ascii []" "ascii ''Journal Article''" "ascii ''conf.''" "ascii ''Working Paper''"
      "ascii ''misc''" "ascii ''Journal''"
      by (simp_all add: ascii_def)
    have lw: "lower [] = []" "lower ''Journal Article'' = ''journal article''"
      "lower ''conf.'' = ''conf.''" "lower ''Working Paper'' = ''working paper''"
      "lower ''misc'' = ''misc''" "lower ''Journal'' = ''journal''"
      unfolding a [THEN lowers_asciiD [OF l]] by (simp_all add: ascii_lower_def lower_char_def)
    show "normalize_section lower [] = ''other''
        \<and> normalize_section lower ''Journal Article'' = ''journal''
        \<and> normalize_section lower ''conf.'' = ''conference''
        \<and> normalize_section lower ''Working Paper'' = ''working''
        \<and> normalize_section lower ''misc'' = ''other''
        \<and> normalize_section lower ([CHR 0xC2, CHR 0xA0] @ ''Journal '' @ [CHR 0xE2, CHR 0x80, CHR 0x83])
            = ''journal''"
      unfolding normalize_section_def s lw by (simp add: startswith_def)
  qed
  show ?thesis
    by (intro conjI j w c o ex)
qed

theorem normalize_section_by_prefix_witness:
  "(\<exists>r. ascii_lower (strip '' JOURNAL of x '') = ''jour'' @ r)
   \<and> normalize_section ascii_lower '' JOURNAL of x '' = ''journal''
   \<and> (\<exists>r. ascii_lower (strip ''Workshop'') = ''work'' @ r)
   \<and> normalize_section ascii_lower ''Workshop'' = ''working''
   \<and> (\<exists>r. ascii_lower (strip ''CONF'') = ''conf'' @ r)
   \<and> normalize_section ascii_lower ''CONF'' = ''conference''
   \<and> normalize_section ascii_lower ''a journal'' = ''other''
   \<and> lowers_ascii ascii_lower
   \<and> normalize_section ascii_lower ''Journal Article'' = ''journal''"
proof -
  have s: "strip '' JOURNAL of x '' = ''JOURNAL of x''" "strip ''Workshop'' = ''Workshop''"
    "strip ''CONF'' = ''CONF''" "strip ''a journal'' = ''a journal''"
    by code_simp+
  have a: "ascii_lower (strip '' JOURNAL of x '') = ''jour'' @ ''nal of x''"
    and b: "ascii_lower (strip ''Workshop'') = ''work'' @ ''shop''"
    and c: "ascii_lower (strip ''CONF'') = ''conf'' @ []"
    and d: "ascii_lower (strip ''a journal'') = ''a journal''"
    unfolding s by (simp_all add: ascii_lower_def lower_char_def)
  have d': "\<not> (\<exists>r. ascii_lower (strip ''a journal'') = ''jour'' @ r)
    \<and> \<not> (\<exists>r. ascii_lower (strip ''a journal'') = ''work'' @ r)
    \<and> \<not> (\<exists>r. ascii_lower (strip ''a journal'') = ''conf'' @ r)"
    unfolding d by simp
  from a have ea: "\<exists>r. ascii_lower (strip '' JOURNAL of x '') = ''jour'' @ r" by (rule exI)
  from b have eb: "\<exists>r. ascii_lower (strip ''Workshop'') = ''work'' @ r" by (rule exI)
  from c have ec: "\<exists>r. ascii_lower (strip ''CONF'') = ''conf'' @ r" by (rule exI)
  note t1 = normalize_section_by_prefix [of ascii_lower "'' JOURNAL of x ''", THEN conjunct1, rule_format, OF ea]
  note t2 = normalize_section_by_prefix [of ascii_lower "''Workshop''", THEN conjunct2, THEN conjunct1, rule_format, OF eb]
  note t3 = normalize_section_by_prefix [of ascii_lower "''CONF''", THEN conjunct2, THEN conjunct2, THEN conjunct1, rule_format, OF ec]
  note t4 = normalize_section_by_prefix [of ascii_lower "''a journal''", THEN conjunct2, THEN conjunct2, THEN conjunct2, THEN conjunct1, rule_format, OF d']
  note t5 = normalize_section_by_prefix [of ascii_lower "[]", THEN conjunct2, THEN conjunct2, THEN conjunct2,
      THEN conjunct2, THEN mp, OF lowers_ascii_ascii_lower, THEN conjunct2, THEN conjunct1]
  show ?thesis
    by (intro conjI ea eb ec t1 t2 t3 t4 t5 lowers_ascii_ascii_lower)
qed

lemma esc_append: "esc (a @ b) = esc a @ esc b"
  by (simp add: esc_def)

lemma replace_match: "old \<noteq> [] \<Longrightarrow> replace old new (old @ r) = new @ replace old new r"
  by (cases old) simp_all

lemma replace_skip:
  "old \<noteq> [] \<Longrightarrow> \<not> prefix old (x # xs) \<Longrightarrow> replace old new (x # xs) = x # replace old new xs"
  by simp

lemma replace_boundary:
  assumes "c \<notin> set p"
  shows "replace (c # p) new (a @ c # b) = replace (c # p) new a @ replace (c # p) new (c # b)"
proof (induction a rule: length_induct)
  case (1 a)
  show ?case
  proof (cases a)
    case Nil
    then show ?thesis by (simp del: replace.simps add: replace.simps(1))
  next
    case (Cons x xs)
    show ?thesis
    proof (cases "prefix (c # p) (x # xs)")
      case True
      then obtain r where r: "a = (c # p) @ r"
        unfolding Cons by (auto simp: prefix_def)
      then have "length a = length ((c # p) @ r)" by (rule arg_cong)
      then have "length r < length a" by simp
      with 1 have IH: "replace (c # p) new (r @ c # b) = replace (c # p) new r @ replace (c # p) new (c # b)"
        by blast
      have "replace (c # p) new (a @ c # b) = replace (c # p) new ((c # p) @ (r @ c # b))"
        unfolding r by simp
      also have "\<dots> = new @ replace (c # p) new (r @ c # b)"
        by (rule replace_match) simp
      also have "\<dots> = (new @ replace (c # p) new r) @ replace (c # p) new (c # b)"
        unfolding IH by simp
      also have "new @ replace (c # p) new r = replace (c # p) new a"
        unfolding r by (rule replace_match [symmetric]) simp
      finally show ?thesis .
    next
      case False
      have npre: "\<not> prefix (c # p) (x # (xs @ c # b))"
      proof
        assume h: "prefix (c # p) (x # (xs @ c # b))"
        then have "prefix (c # p) ((x # xs) @ (c # b))" by auto
        then have "prefix (c # p) (x # xs) \<or> (\<exists>us. c # p = (x # xs) @ us \<and> prefix us (c # b))"
          unfolding prefix_append .
        with False obtain us where us: "c # p = (x # xs) @ us" "prefix us (c # b)" by blast
        show False
        proof (cases us)
          case Nil
          with us have "c # p = x # xs" by simp
          with False show False by simp
        next
          case (Cons u us')
          with us(2) have "u = c" by simp
          with us(1) Cons have "p = xs @ c # us'" by simp
          then have "c \<in> set p" by simp
          with assms show False by simp
        qed
      qed
      have IH: "replace (c # p) new (xs @ c # b) = replace (c # p) new xs @ replace (c # p) new (c # b)"
        using 1 Cons by simp
      have "replace (c # p) new (a @ c # b) = replace (c # p) new (x # (xs @ c # b))"
        unfolding Cons by simp
      also have "\<dots> = x # replace (c # p) new (xs @ c # b)"
        using npre by (intro replace_skip) simp_all
      also have "\<dots> = (x # replace (c # p) new xs) @ replace (c # p) new (c # b)"
        unfolding IH by simp
      also have "x # replace (c # p) new xs = replace (c # p) new a"
        unfolding Cons using False by (intro replace_skip [symmetric]) simp_all
      finally show ?thesis .
    qed
  qed
qed

lemma cite_append_entity:
  \<open>cite (a @ ''&#10;'' @ b) = cite a @ ''&#10;'' @ cite b\<close>
proof -
  have e: \<open>esc (a @ ''&#10;'' @ b) = esc a @ CHR ''&'' # (''amp;#10;'' @ esc b)\<close>
    by (simp add: esc_append) (simp add: esc_def esc_char_def apostrophe_def)
  have n: \<open>CHR ''&'' \<notin> set ''amp;#10;''\<close> by simp
  have m: \<open>replace ''&amp;#10;'' ''&#10;'' (''&amp;#10;'' @ esc b) = ''&#10;'' @ replace ''&amp;#10;'' ''&#10;'' (esc b)\<close>
    by (rule replace_match) simp
  show ?thesis
    unfolding cite_def e using replace_boundary [OF n, of \<open>''&#10;''\<close> \<open>esc a\<close> \<open>''amp;#10;'' @ esc b\<close>] m
    by simp
qed

lemma concat_mem_sublist: "x \<in> set xs \<Longrightarrow> sublist x (concat xs)"
proof -
  assume "x \<in> set xs"
  then obtain ys zs where "xs = ys @ x # zs" by (auto simp: in_set_conv_decomp)
  then have "concat xs = concat ys @ x @ concat zs" by simp
  then show ?thesis unfolding sublist_def by blast
qed

lemma join_mem_sublist: "x \<in> set xs \<Longrightarrow> sublist x (join sep xs)"
proof (induction sep xs rule: join.induct)
  case (1 sep)
  then show ?case by simp
next
  case (2 sep y)
  then show ?case by simp
next
  case (3 sep y z zs)
  show ?case
  proof (cases "x = y")
    case True
    then show ?thesis by simp
  next
    case False
    with 3 have "sublist x (join sep (z # zs))" by auto
    then obtain pre post where "join sep (z # zs) = pre @ x @ post"
      unfolding sublist_def by blast
    then have "join sep (y # z # zs) = (y @ sep @ pre) @ x @ post" by simp
    then show ?thesis unfolding sublist_def by blast
  qed
qed

lemma article_links: "sublist (links r) (article lower r)"
  unfolding article_def Let_def by (rule concat_mem_sublist) simp

lemma article_authors: \<open>sublist (''<div class="authors">'' @ authors_html lower r @ ''</div>'') (article lower r)\<close>
  unfolding article_def Let_def by (rule concat_mem_sublist) simp

lemma links_cite: "field r ''bibtex'' \<noteq> [] \<Longrightarrow> sublist (cite_block (field r ''bibtex'')) (links r)"
  unfolding links_def by (rule join_mem_sublist) (simp add: cite_part_def)

lemma links_media:
  "strip (field r ''media'') \<noteq> [] \<Longrightarrow> sublist (media_block (strip (field r ''media''))) (links r)"
  unfolding links_def by (rule join_mem_sublist) (simp add: media_part_def)

lemma sublist_trans: "sublist a b \<Longrightarrow> sublist b c \<Longrightarrow> sublist a c"
  by (rule sublist_order.order_trans)

lemma length_replace_le:
  "length new \<le> length old \<Longrightarrow> length (replace old new s) \<le> length s"
proof (induction old new s rule: replace.induct)
  case (1 old new)
  then show ?case by auto
next
  case (2 old new x xs)
  show ?case
  proof (cases "old = []")
    case True
    with 2 show ?thesis by auto
  next
    case False
    show ?thesis
    proof (cases "prefix old (x # xs)")
      case True
      then obtain r where r: "x # xs = old @ r" by (auto simp: prefix_def)
      have "length (replace old new (drop (length old) (x # xs))) \<le> length (drop (length old) (x # xs))"
        using 2 False True by blast
      then have "length (replace old new r) \<le> length r" unfolding r by simp
      moreover have "replace old new (x # xs) = new @ replace old new r"
        unfolding r using False by (rule replace_match)
      moreover have "length (x # xs) = length old + length r" unfolding r by simp
      ultimately show ?thesis using 2(4) by simp
    next
      case np: False
      with 2 False have "length (replace old new xs) \<le> length xs" by blast
      then show ?thesis using False np by simp
    qed
  qed
qed

lemma cite_block_body:
  \<open>sublist (''<pre><code>'' @ cite b @ ''</code></pre>'') (cite_block b)\<close>
proof -
  have \<open>cite_block b = ''<details class="tool cite"><summary class="btn" aria-label="Cite this paper"><svg class="i" viewBox="0 0 24 24" fill="none" stroke="currentColor" stroke-width="2" stroke-linecap="round" stroke-linejoin="round"><path d="M14 2H6a2 2 0 0 0-2 2v16l4-4h6a2 2 0 0 0 2-2V4a2 2 0 0 0-2-2z"/></svg><span>Cite</span></summary><div class="dropdown cite-body">''
      @ (''<pre><code>'' @ cite b @ ''</code></pre>'') @ ''</div></details>''\<close>
    unfolding cite_block_def by simp
  then show ?thesis unfolding sublist_def by blast
qed

text \<open>
  Claim C10. A bibtex field that holds the characters \<^verbatim>\<open>&#10;\<close> as text: the citation body
  has the character reference \<^verbatim>\<open>&#10;\<close> at that place, where escaping alone would
  have put \<^verbatim>\<open>&amp;#10;\<close>, and the rest of the field is rendered as it is without that
  text. So the typed text is not shown as it was typed; the body differs from the escaped
  field, and it stands between \<^verbatim>\<open><pre><code>\<close> and \<^verbatim>\<open></code></pre>\<close> in the fragment.
\<close>

theorem cite_restores_newline_entity:
  \<open>cite (a @ ''&#10;'' @ b) = cite a @ ''&#10;'' @ cite b
   \<and> esc (a @ ''&#10;'' @ b) = esc a @ ''&amp;#10;'' @ esc b
   \<and> cite (a @ ''&#10;'' @ b) \<noteq> esc (a @ ''&#10;'' @ b)
   \<and> (field r ''bibtex'' = a @ ''&#10;'' @ b \<longrightarrow>
        sublist (''<pre><code>'' @ cite a @ ''&#10;'' @ cite b @ ''</code></pre>'') (article lower r))\<close>
proof -
  have c: \<open>cite (a @ ''&#10;'' @ b) = cite a @ ''&#10;'' @ cite b\<close>
    by (rule cite_append_entity)
  have e: \<open>esc (a @ ''&#10;'' @ b) = esc a @ ''&amp;#10;'' @ esc b\<close>
    by (simp add: esc_append) (simp add: esc_def esc_char_def apostrophe_def)
  have la: "length (cite a) \<le> length (esc a)" and lb: "length (cite b) \<le> length (esc b)"
    unfolding cite_def by (rule length_replace_le, simp)+
  have \<open>length (cite (a @ ''&#10;'' @ b)) < length (esc (a @ ''&#10;'' @ b))\<close>
    unfolding c e using la lb by simp
  then have n: \<open>cite (a @ ''&#10;'' @ b) \<noteq> esc (a @ ''&#10;'' @ b)\<close>
    by auto
  have s: \<open>field r ''bibtex'' = a @ ''&#10;'' @ b \<longrightarrow>
        sublist (''<pre><code>'' @ cite a @ ''&#10;'' @ cite b @ ''</code></pre>'') (article lower r)\<close>
  proof
    assume f: \<open>field r ''bibtex'' = a @ ''&#10;'' @ b\<close>
    then have ne: "field r ''bibtex'' \<noteq> []" by simp
    have \<open>sublist (''<pre><code>'' @ cite (field r ''bibtex'') @ ''</code></pre>'') (cite_block (field r ''bibtex''))\<close>
      by (rule cite_block_body)
    also have "sublist \<dots> (links r)" using ne by (rule links_cite)
    also have "sublist \<dots> (article lower r)" by (rule article_links)
    finally show \<open>sublist (''<pre><code>'' @ cite a @ ''&#10;'' @ cite b @ ''</code></pre>'') (article lower r)\<close>
      unfolding f c by simp
  qed
  show ?thesis by (intro conjI c e n s)
qed

theorem cite_restores_newline_entity_witness:
  \<open>field [''bibtex'' \<mapsto> ''x&#10;y''] ''bibtex'' = ''x'' @ ''&#10;'' @ ''y''
   \<and> cite ''x&#10;y'' = ''x&#10;y''
   \<and> esc ''x&#10;y'' = ''x&amp;#10;y''
   \<and> sublist ''<pre><code>x&#10;y</code></pre>'' (article ascii_lower [''bibtex'' \<mapsto> ''x&#10;y''])\<close>
proof -
  have f: \<open>field [''bibtex'' \<mapsto> ''x&#10;y''] ''bibtex'' = ''x'' @ ''&#10;'' @ ''y''\<close>
    by (simp add: field_def)
  have cx: \<open>cite ''x'' = ''x''\<close> and cy: \<open>cite ''y'' = ''y''\<close>
    and ex: \<open>esc ''x'' = ''x''\<close> and ey: \<open>esc ''y'' = ''y''\<close>
    by (simp_all add: cite_def esc_def esc_char_def apostrophe_def)
  note t = cite_restores_newline_entity [where a = \<open>''x''\<close> and b = \<open>''y''\<close>
      and r = \<open>[''bibtex'' \<mapsto> ''x&#10;y'']\<close> and lower = ascii_lower]
  note t1 = t [THEN conjunct1]
  note t2 = t [THEN conjunct2, THEN conjunct1]
  note t4 = t [THEN conjunct2, THEN conjunct2, THEN conjunct2, THEN mp, OF f]
  show ?thesis
    using f t1 t2 t4 unfolding cx cy ex ey by simp
qed

text \<open>
  Claim C7, as stated: the authorship line is the solo marker exactly when the trimmed
  authors field is empty or is the text "solo". The source compares the lowercased field,
  so "SOLO" gives the marker too. On that field \<^verbatim>\<open>str.lower\<close> is \<open>ascii_lower\<close>.
\<close>

theorem authors_solo_literal_counterexample:
  "\<not> (authors_html ascii_lower [''authors'' \<mapsto> ''SOLO''] = ''solo''
       \<longleftrightarrow> (strip (field [''authors'' \<mapsto> ''SOLO''] ''authors'') = []
            \<or> strip (field [''authors'' \<mapsto> ''SOLO''] ''authors'') = ''solo''))"
proof -
  have f: "field [''authors'' \<mapsto> ''SOLO''] ''authors'' = ''SOLO''" by (simp add: field_def)
  have s: "strip ''SOLO'' = ''SOLO''" by code_simp
  show ?thesis
    unfolding authors_html_def Let_def f s by (simp add: ascii_lower_def lower_char_def)
qed

text \<open>
  Claim C7, amended. The authorship line is the solo marker exactly when the trimmed
  authors field is empty or its lowercased form is "solo", so in any letter case;
  otherwise it is "with " followed by the escaped trimmed field. The line stands in
  the fragment inside the authors element. Trimming is that of \<^verbatim>\<open>str.strip\<close>: a field of
  "solo" between no-break spaces gives the marker.
\<close>

theorem authors_html_solo:
  \<open>(authors_html lower r = ''solo''
      \<longleftrightarrow> (strip (field r ''authors'') = [] \<or> lower (strip (field r ''authors'')) = ''solo''))
   \<and> (authors_html lower r \<noteq> ''solo'' \<longrightarrow>
        authors_html lower r = ''with '' @ esc (strip (field r ''authors'')))
   \<and> sublist (''<div class="authors">'' @ authors_html lower r @ ''</div>'') (article lower r)
   \<and> (lowers_ascii lower \<longrightarrow>
        authors_html lower [''authors'' \<mapsto> [CHR 0xC2, CHR 0xA0] @ ''Solo'' @ [CHR 0xC2, CHR 0xA0]] = ''solo''
        \<and> authors_html lower [''authors'' \<mapsto> '' A & B ''] = ''with A &amp; B'')\<close>
proof -
  have w: "''with '' @ x \<noteq> ''solo''" for x by simp
  have a: "authors_html lower r = ''solo''
      \<longleftrightarrow> (strip (field r ''authors'') = [] \<or> lower (strip (field r ''authors'')) = ''solo'')"
    unfolding authors_html_def Let_def using w by auto
  have b: "authors_html lower r \<noteq> ''solo'' \<longrightarrow>
      authors_html lower r = ''with '' @ esc (strip (field r ''authors''))"
    unfolding authors_html_def Let_def by auto
  have c: "lowers_ascii lower \<longrightarrow>
        authors_html lower [''authors'' \<mapsto> [CHR 0xC2, CHR 0xA0] @ ''Solo'' @ [CHR 0xC2, CHR 0xA0]] = ''solo''
        \<and> authors_html lower [''authors'' \<mapsto> '' A & B ''] = ''with A &amp; B''"
  proof
    assume l: "lowers_ascii lower"
    have f: "field [''authors'' \<mapsto> [CHR 0xC2, CHR 0xA0] @ ''Solo'' @ [CHR 0xC2, CHR 0xA0]] ''authors''
        = [CHR 0xC2, CHR 0xA0] @ ''Solo'' @ [CHR 0xC2, CHR 0xA0]"
      "field [''authors'' \<mapsto> '' A & B ''] ''authors'' = '' A & B ''"
      by (simp_all add: field_def)
    have s: "strip ([CHR 0xC2, CHR 0xA0] @ ''Solo'' @ [CHR 0xC2, CHR 0xA0]) = ''Solo''"
      "strip '' A & B '' = ''A & B''"
      by code_simp+
    have as: "ascii ''Solo''" "ascii ''A & B''" by (simp_all add: ascii_def)
    have lw: "lower ''Solo'' = ''solo''" "lower ''A & B'' = ''a & b''"
      unfolding as [THEN lowers_asciiD [OF l]] by (simp_all add: ascii_lower_def lower_char_def)
    have e: "esc ''A & B'' = ''A &amp; B''"
      by (simp add: esc_def esc_char_def apostrophe_def)
    show "authors_html lower [''authors'' \<mapsto> [CHR 0xC2, CHR 0xA0] @ ''Solo'' @ [CHR 0xC2, CHR 0xA0]] = ''solo''
        \<and> authors_html lower [''authors'' \<mapsto> '' A & B ''] = ''with A &amp; B''"
      unfolding authors_html_def Let_def f s lw e by simp
  qed
  show ?thesis by (intro conjI a b c article_authors)
qed

theorem authors_html_solo_witness:
  \<open>authors_html ascii_lower [''authors'' \<mapsto> '' x < y ''] \<noteq> ''solo''
   \<and> authors_html ascii_lower [''authors'' \<mapsto> '' x < y ''] = ''with x &lt; y''
   \<and> authors_html ascii_lower [''authors'' \<mapsto> ''sOLO''] = ''solo''
   \<and> authors_html ascii_lower Map.empty = ''solo''
   \<and> lowers_ascii ascii_lower
   \<and> authors_html ascii_lower [''authors'' \<mapsto> '' A & B ''] = ''with A &amp; B''\<close>
proof -
  have f: \<open>field [''authors'' \<mapsto> '' x < y ''] ''authors'' = '' x < y ''\<close>
    \<open>field [''authors'' \<mapsto> ''sOLO''] ''authors'' = ''sOLO''\<close>
    \<open>field Map.empty ''authors'' = []\<close>
    by (simp_all add: field_def)
  have s: \<open>strip '' x < y '' = ''x < y''\<close> \<open>strip ''sOLO'' = ''sOLO''\<close> \<open>strip [] = []\<close>
    by code_simp+
  have l: \<open>ascii_lower ''x < y'' = ''x < y''\<close> \<open>ascii_lower ''sOLO'' = ''solo''\<close>
    by (simp_all add: ascii_lower_def lower_char_def)
  have e: \<open>esc ''x < y'' = ''x &lt; y''\<close>
    by (simp add: esc_def esc_char_def apostrophe_def)
  note t = authors_html_solo [where lower = ascii_lower and r = \<open>[''authors'' \<mapsto> '' x < y '']\<close>]
  from t [THEN conjunct1] have n: \<open>authors_html ascii_lower [''authors'' \<mapsto> '' x < y ''] \<noteq> ''solo''\<close>
    unfolding f s l by simp
  from t [THEN conjunct2, THEN conjunct1, THEN mp, OF n]
  have w: \<open>authors_html ascii_lower [''authors'' \<mapsto> '' x < y ''] = ''with x &lt; y''\<close>
    unfolding f s e by simp
  from authors_html_solo [where lower = ascii_lower and r = \<open>[''authors'' \<mapsto> ''sOLO'']\<close>, THEN conjunct1]
  have o: \<open>authors_html ascii_lower [''authors'' \<mapsto> ''sOLO''] = ''solo''\<close>
    unfolding f s l by simp
  from authors_html_solo [where lower = ascii_lower and r = Map.empty, THEN conjunct1]
  have m: \<open>authors_html ascii_lower Map.empty = ''solo''\<close>
    unfolding f s by simp
  note c = t [THEN conjunct2, THEN conjunct2, THEN conjunct2, THEN mp, OF lowers_ascii_ascii_lower,
      THEN conjunct2]
  show ?thesis by (intro conjI n w o m c lowers_ascii_ascii_lower)
qed

lemma takeWhile_absent: "c \<notin> set item \<Longrightarrow> takeWhile (\<lambda>x. x \<noteq> c) item = item"
  by (induction item) auto

lemma label_url_0:
  "take 2 (split_first c item @ [[]]) ! 0 = takeWhile (\<lambda>x. x \<noteq> c) item"
  by (simp add: split_first_def takeWhile_absent)

lemma label_url_1:
  "take 2 (split_first c item @ [[]]) ! 1 = drop (Suc (length (takeWhile (\<lambda>x. x \<noteq> c) item))) item"
proof (cases "c \<in> set item")
  case True
  have "tl (dropWhile (\<lambda>x. x \<noteq> c) item) = drop (Suc (length (takeWhile (\<lambda>x. x \<noteq> c) item))) item"
    by (simp add: dropWhile_eq_drop drop_Suc tl_drop)
  with True show ?thesis by (simp add: split_first_def)
next
  case False
  then have "takeWhile (\<lambda>x. x \<noteq> c) item = item"
    by (rule takeWhile_absent)
  then have "drop (Suc (length (takeWhile (\<lambda>x. x \<noteq> c) item))) item = drop (Suc (length item)) item"
    by (rule arg_cong)
  then have "drop (Suc (length (takeWhile (\<lambda>x. x \<noteq> c) item))) item = []"
    by (simp del: takeWhile_eq_all_conv)
  with False show ?thesis by (simp add: split_first_def)
qed

lemma media_loop_badges: "media_loop acc items = acc @ concat (map media_badge items)"
proof (induction items arbitrary: acc)
  case Nil
  then show ?case by simp
next
  case (Cons item items)
  show ?case
    unfolding media_loop.simps Let_def label_url_0 label_url_1
    by (simp add: Cons media_badge_def Let_def)
qed

lemma split_on_nonempty: "split_on c s \<noteq> []"
  by (induction s) (auto split: list.splits)

lemma split_on_join: "join [c] (split_on c s) = s"
proof (induction s)
  case Nil
  then show ?case by simp
next
  case (Cons x xs)
  obtain p ps where ps: "split_on c xs = p # ps"
    using split_on_nonempty [of c xs] by (cases "split_on c xs") auto
  show ?case
  proof (cases "x = c")
    case True
    then show ?thesis using Cons ps by simp
  next
    case False
    then show ?thesis using Cons ps by (cases ps) auto
  qed
qed

lemma split_on_pieces: "p \<in> set (split_on c s) \<Longrightarrow> c \<notin> set p"
  by (induction s arbitrary: p) (auto split: if_splits list.splits)


lemma media_block_body:
  \<open>sublist (''<div class="media-list">'' @ concat (media_loop [] (split_on (CHR '';'') m)) @ ''</div>'')
     (media_block m)\<close>
proof -
  have \<open>media_block m = ''<details class="tool media"><summary class="btn" aria-label="Media coverage"><svg class="i" viewBox="0 0 24 24" fill="none" stroke="currentColor" stroke-width="2" stroke-linecap="round" stroke-linejoin="round"><path d="M19 21H5a2 2 0 0 1-2-2V7a2 2 0 0 1 2-2h10l6 6v8a2 2 0 0 1-2 2z"/></svg><span>Media</span></summary><div class="dropdown">''
      @ (''<div class="media-list">'' @ concat (media_loop [] (split_on (CHR '';'') m)) @ ''</div>'')
      @ ''</div></details>''\<close>
    unfolding media_block_def by simp
  then show ?thesis unfolding sublist_def by blast
qed

lemma links_badges:
  assumes "strip (field r ''media'') \<noteq> []"
  shows \<open>sublist (''<div class="media-list">''
            @ concat (concat (map media_badge (split_on (CHR '';'') (strip (field r ''media'')))))
            @ ''</div>'') (links r)\<close>
proof -
  have \<open>sublist (''<div class="media-list">''
            @ concat (media_loop [] (split_on (CHR '';'') (strip (field r ''media'')))) @ ''</div>'')
          (media_block (strip (field r ''media'')))\<close>
    by (rule media_block_body)
  also have "sublist \<dots> (links r)" using assms by (rule links_media)
  finally show ?thesis using media_loop_badges [of "[]"] by simp
qed

text \<open>
  Claim C8. The media control is part of the link cluster exactly when the media field is
  not empty after trimming, and its list then holds the badges of the items of the
  trimmed field, one after the other. The field is cut at every \<^verbatim>\<open>;\<close>; of each item the
  label is the text before the first \<^verbatim>\<open>|\<close> and the url the text after it, both trimmed; an
  item with an empty label gives no badge, an item with a url a linked badge and one
  without a plain badge. \<^verbatim>\<open>Talk|http://x.test;NoURL\<close> gives one linked badge "Talk" and one
  plain badge "NoURL", \<^verbatim>\<open>|http://x.test\<close> gives no badge, and so does an item whose label
  is a no-break space.
\<close>

theorem media_badges:
  \<open>(media_part r = [] \<longleftrightarrow> strip (field r ''media'') = [])
   \<and> (strip (field r ''media'') = [] \<longrightarrow>
        links r = join ''\<newline>            ''
          ([''<div class="links">''] @ paper_part r @ slides_part r @ doi_part r @ cite_part r @ [''</div>'']))
   \<and> (strip (field r ''media'') \<noteq> [] \<longrightarrow>
        sublist (media_block (strip (field r ''media''))) (links r)
        \<and> sublist (''<div class="media-list">''
              @ concat (concat (map media_badge (split_on (CHR '';'') (strip (field r ''media'')))))
              @ ''</div>'') (links r)
        \<and> sublist (''<div class="media-list">''
              @ concat (concat (map media_badge (split_on (CHR '';'') (strip (field r ''media'')))))
              @ ''</div>'') (article lower r))
   \<and> join '';'' (split_on (CHR '';'') m) = m
   \<and> (\<forall>item \<in> set (split_on (CHR '';'') m). CHR '';'' \<notin> set item)
   \<and> media_loop [] (split_on (CHR '';'') m) = concat (map media_badge (split_on (CHR '';'') m))
   \<and> media_loop [] (split_on (CHR '';'') ''Talk|http://x.test;NoURL'')
       = [''<a class="media-pill" href="http://x.test" rel="noopener">Talk</a>'',
          ''<span class="media-pill">NoURL</span>'']
   \<and> sublist ''<div class="media-list"><a class="media-pill" href="http://x.test" rel="noopener">Talk</a><span class="media-pill">NoURL</span></div>''
        (links [''media'' \<mapsto> ''Talk|http://x.test;NoURL''])
   \<and> media_loop [] (split_on (CHR '';'') ''|http://x.test'') = []
   \<and> sublist ''<div class="media-list"></div>'' (links [''media'' \<mapsto> ''|http://x.test''])
   \<and> media_loop [] (split_on (CHR '';'') (''x;'' @ [CHR 0xC2, CHR 0xA0] @ ''|http://x.test''))
       = [''<span class="media-pill">x</span>'']\<close>
proof -
  have a: "media_part r = [] \<longleftrightarrow> strip (field r ''media'') = []"
    by (simp add: media_part_def)
  have a': \<open>strip (field r ''media'') = [] \<longrightarrow>
        links r = join ''\<newline>            ''
          ([''<div class="links">''] @ paper_part r @ slides_part r @ doi_part r @ cite_part r @ [''</div>''])\<close>
    by (simp add: links_def media_part_def)
  have b: \<open>strip (field r ''media'') \<noteq> [] \<longrightarrow>
        sublist (media_block (strip (field r ''media''))) (links r)
        \<and> sublist (''<div class="media-list">''
              @ concat (concat (map media_badge (split_on (CHR '';'') (strip (field r ''media'')))))
              @ ''</div>'') (links r)
        \<and> sublist (''<div class="media-list">''
              @ concat (concat (map media_badge (split_on (CHR '';'') (strip (field r ''media'')))))
              @ ''</div>'') (article lower r)\<close>
  proof
    assume n: "strip (field r ''media'') \<noteq> []"
    note l = links_badges [OF n]
    from l article_links [of r lower]
    have \<open>sublist (''<div class="media-list">''
              @ concat (concat (map media_badge (split_on (CHR '';'') (strip (field r ''media'')))))
              @ ''</div>'') (article lower r)\<close>
      by (rule sublist_trans)
    with l links_media [OF n]
    show \<open>sublist (media_block (strip (field r ''media''))) (links r)
        \<and> sublist (''<div class="media-list">''
              @ concat (concat (map media_badge (split_on (CHR '';'') (strip (field r ''media'')))))
              @ ''</div>'') (links r)
        \<and> sublist (''<div class="media-list">''
              @ concat (concat (map media_badge (split_on (CHR '';'') (strip (field r ''media'')))))
              @ ''</div>'') (article lower r)\<close>
      by (intro conjI)
  qed
  have c: "join '';'' (split_on (CHR '';'') m) = m"
    by (rule split_on_join)
  have d: "\<forall>item \<in> set (split_on (CHR '';'') m). CHR '';'' \<notin> set item"
    using split_on_pieces by blast
  have e: "media_loop [] (split_on (CHR '';'') m) = concat (map media_badge (split_on (CHR '';'') m))"
    using media_loop_badges [of "[]"] by simp
  have f: \<open>media_loop [] (split_on (CHR '';'') ''Talk|http://x.test;NoURL'')
       = [''<a class="media-pill" href="http://x.test" rel="noopener">Talk</a>'',
          ''<span class="media-pill">NoURL</span>'']\<close>
    by code_simp
  have g: \<open>media_loop [] (split_on (CHR '';'') ''|http://x.test'') = []\<close>
    by code_simp
  have h: \<open>media_loop [] (split_on (CHR '';'') (''x;'' @ [CHR 0xC2, CHR 0xA0] @ ''|http://x.test''))
       = [''<span class="media-pill">x</span>'']\<close>
    by code_simp
  have f2: \<open>concat (map media_badge (split_on (CHR '';'') ''Talk|http://x.test;NoURL''))
       = [''<a class="media-pill" href="http://x.test" rel="noopener">Talk</a>'',
          ''<span class="media-pill">NoURL</span>'']\<close>
    by code_simp
  have g2: \<open>concat (map media_badge (split_on (CHR '';'') ''|http://x.test'')) = []\<close>
    by code_simp
  have s1: \<open>strip (field [''media'' \<mapsto> ''Talk|http://x.test;NoURL''] ''media'') = ''Talk|http://x.test;NoURL''\<close>
    unfolding field_def by simp code_simp
  have s2: \<open>strip (field [''media'' \<mapsto> ''|http://x.test''] ''media'') = ''|http://x.test''\<close>
    unfolding field_def by simp code_simp
  have f': \<open>sublist ''<div class="media-list"><a class="media-pill" href="http://x.test" rel="noopener">Talk</a><span class="media-pill">NoURL</span></div>''
        (links [''media'' \<mapsto> ''Talk|http://x.test;NoURL''])\<close>
    using links_badges [of \<open>[''media'' \<mapsto> ''Talk|http://x.test;NoURL'']\<close>]
    unfolding s1 f2 by simp
  have g': \<open>sublist ''<div class="media-list"></div>'' (links [''media'' \<mapsto> ''|http://x.test''])\<close>
    using links_badges [of \<open>[''media'' \<mapsto> ''|http://x.test'']\<close>]
    unfolding s2 g2 by simp
  show ?thesis by (intro conjI a a' b c d e f f' g g' h)
qed

theorem media_badges_witness:
  \<open>strip (field [''media'' \<mapsto> '' A|u; B ;|v''] ''media'') \<noteq> []
   \<and> sublist (media_block ''A|u; B ;|v'') (links [''media'' \<mapsto> '' A|u; B ;|v''])
   \<and> sublist ''<div class="media-list"><a class="media-pill" href="u" rel="noopener">A</a><span class="media-pill">B</span></div>''
        (article ascii_lower [''media'' \<mapsto> '' A|u; B ;|v''])
   \<and> strip (field Map.empty ''media'') = []
   \<and> links Map.empty = ''<div class="links">\<newline>            </div>''
   \<and> set (split_on (CHR '';'') ''A|u; B ;|v'') = {''A|u'', '' B '', ''|v''}
   \<and> CHR '';'' \<notin> set ''A|u''
   \<and> media_loop [] (split_on (CHR '';'') ''A|u; B ;|v'')
       = [''<a class="media-pill" href="u" rel="noopener">A</a>'', ''<span class="media-pill">B</span>'']\<close>
proof -
  have s: \<open>strip (field [''media'' \<mapsto> '' A|u; B ;|v''] ''media'') = ''A|u; B ;|v''\<close>
    unfolding field_def by simp code_simp
  have s0: \<open>strip (field Map.empty ''media'') = []\<close>
    unfolding field_def by simp code_simp
  have sp: \<open>split_on (CHR '';'') ''A|u; B ;|v'' = [''A|u'', '' B '', ''|v'']\<close>
    by simp
  have mb: \<open>concat (map media_badge [''A|u'', '' B '', ''|v''])
       = [''<a class="media-pill" href="u" rel="noopener">A</a>'', ''<span class="media-pill">B</span>'']\<close>
    by code_simp
  note t = media_badges [where r = \<open>[''media'' \<mapsto> '' A|u; B ;|v'']\<close> and m = \<open>''A|u; B ;|v''\<close>
      and lower = ascii_lower]
  note t0 = media_badges [where r = Map.empty and m = \<open>[]\<close> and lower = ascii_lower]
  have n: \<open>strip (field [''media'' \<mapsto> '' A|u; B ;|v''] ''media'') \<noteq> []\<close>
    unfolding s by simp
  note tb = t [THEN conjunct2, THEN conjunct2, THEN conjunct1, THEN mp, OF n]
  from tb [THEN conjunct1] have sub: \<open>sublist (media_block ''A|u; B ;|v'') (links [''media'' \<mapsto> '' A|u; B ;|v''])\<close>
    unfolding s .
  from tb [THEN conjunct2, THEN conjunct2]
  have art: \<open>sublist ''<div class="media-list"><a class="media-pill" href="u" rel="noopener">A</a><span class="media-pill">B</span></div>''
        (article ascii_lower [''media'' \<mapsto> '' A|u; B ;|v''])\<close>
    unfolding s sp mb by simp
  from t0 [THEN conjunct2, THEN conjunct1, THEN mp, OF s0]
  have l0: \<open>links Map.empty = ''<div class="links">\<newline>            </div>''\<close>
    by (simp add: paper_part_def slides_part_def doi_part_def cite_part_def field_def)
  note all = t [THEN conjunct2, THEN conjunct2, THEN conjunct2, THEN conjunct2, THEN conjunct1]
  have mem: \<open>''A|u'' \<in> set (split_on (CHR '';'') ''A|u; B ;|v'')\<close>
    unfolding sp by simp
  from all mem have notin: \<open>CHR '';'' \<notin> set ''A|u''\<close> by (rule bspec)
  note ml = t [THEN conjunct2, THEN conjunct2, THEN conjunct2, THEN conjunct2, THEN conjunct2, THEN conjunct1]
  have st: \<open>set (split_on (CHR '';'') ''A|u; B ;|v'') = {''A|u'', '' B '', ''|v''}\<close>
    unfolding sp by simp
  from ml have ml': \<open>media_loop [] (split_on (CHR '';'') ''A|u; B ;|v'')
       = [''<a class="media-pill" href="u" rel="noopener">A</a>'', ''<span class="media-pill">B</span>'']\<close>
    unfolding sp mb .
  show ?thesis
    by (intro conjI n sub art s0 l0 st notin ml')
qed

































lemma normalize_section_range:
  "normalize_section lower s = ''journal'' \<or> normalize_section lower s = ''working''
   \<or> normalize_section lower s = ''conference'' \<or> normalize_section lower s = ''other''"
  unfolding normalize_section_def Let_def by simp

lemma section_items_Cons:
  "section_items lower k (r # rows) =
     (if normalize_section lower (field r ''section'') = k then [article lower r] else []) @ section_items lower k rows"
  by (simp add: section_items_def)

lemma fill_std:
  "fill lower rows [(''journal'', j), (''working'', w), (''conference'', c), (''other'', ot)]
   = Inr [(''journal'', j @ section_items lower ''journal'' rows),
          (''working'', w @ section_items lower ''working'' rows),
          (''conference'', c @ section_items lower ''conference'' rows),
          (''other'', ot @ section_items lower ''other'' rows)]"
proof (induction rows arbitrary: j w c ot)
  case Nil
  then show ?case by (simp add: section_items_def)
next
  case (Cons r rows)
  consider "normalize_section lower (field r ''section'') = ''journal''"
    | "normalize_section lower (field r ''section'') = ''working''"
    | "normalize_section lower (field r ''section'') = ''conference''"
    | "normalize_section lower (field r ''section'') = ''other''"
    using normalize_section_range by blast
  then show ?case
  proof cases
    case 1
    show ?thesis
      unfolding fill.simps 1 section_items_Cons
      by (simp add: getitem_def Cons 1)
  next
    case 2
    show ?thesis
      unfolding fill.simps 2 section_items_Cons
      by (simp add: getitem_def Cons 2)
  next
    case 3
    show ?thesis
      unfolding fill.simps 3 section_items_Cons
      by (simp add: getitem_def Cons 3)
  next
    case 4
    show ?thesis
      unfolding fill.simps 4 section_items_Cons
      by (simp add: getitem_def Cons 4)
  qed
qed

lemma bucketing_eq:
  "bucketing lower rows
   = Inr [(''journal'', rev (section_items lower ''journal'' rows)),
          (''working'', rev (section_items lower ''working'' rows)),
          (''conference'', rev (section_items lower ''conference'' rows)),
          (''other'', rev (section_items lower ''other'' rows))]"
  unfolding bucketing_def using fill_std [of lower rows "[]" "[]" "[]" "[]"]
  by (simp add: reverse_all_def)

lemma section_items_mset:
  "mset (section_items lower ''journal'' rows) + mset (section_items lower ''working'' rows)
   + mset (section_items lower ''conference'' rows) + mset (section_items lower ''other'' rows)
   = mset (map (article lower) rows)"
proof (induction rows)
  case Nil
  then show ?case by (simp add: section_items_def)
next
  case (Cons r rows)
  consider "normalize_section lower (field r ''section'') = ''journal''"
    | "normalize_section lower (field r ''section'') = ''working''"
    | "normalize_section lower (field r ''section'') = ''conference''"
    | "normalize_section lower (field r ''section'') = ''other''"
    using normalize_section_range by blast
  then show ?case
  proof cases
    case 1
    show ?thesis unfolding section_items_Cons 1 using Cons by simp
  next
    case 2
    show ?thesis unfolding section_items_Cons 2 using Cons by simp
  next
    case 3
    show ?thesis unfolding section_items_Cons 3 using Cons by simp
  next
    case 4
    show ?thesis unfolding section_items_Cons 4 using Cons by simp
  qed
qed

lemma section_items_length:
  "length (section_items lower ''journal'' rows) + length (section_items lower ''working'' rows)
   + length (section_items lower ''conference'' rows) + length (section_items lower ''other'' rows)
   = length rows"
proof -
  have "size (mset (section_items lower ''journal'' rows) + mset (section_items lower ''working'' rows)
   + mset (section_items lower ''conference'' rows) + mset (section_items lower ''other'' rows))
   = size (mset (map (article lower) rows))"
    by (simp only: section_items_mset)
  then show ?thesis by simp
qed


lemma fill_shell_std:
  "fill_shell [(''journal'', j), (''working'', w), (''conference'', c), (''other'', ot)]
   = Inr (replace ''{{OTHER_ITEMS}}'' (slot_text ot)
           (replace ''{{CONF_ITEMS}}'' (slot_text c)
             (replace ''{{WORKING_ITEMS}}'' (slot_text w)
               (replace ''{{JOURNAL_ITEMS}}'' (slot_text j) SHELL))))"
  by (simp add: fill_shell_def getitem_def)

lemma main_success:
  assumes "csv_file w = Some table" "read_rows table = Inr rows"
  shows "\<exists>html. main lower p w =
     (None, w\<lparr>out_file := Some html,
              stdout := stdout w @ ''Wrote '' @ p @ '' ('' @ show_nat (length rows)
                        @ '' items).\<newline>''\<rparr>)"
proof -
  have n: "sum_list (map (\<lambda>(k, v). length v)
      [(''journal'', rev (section_items lower ''journal'' rows)),
       (''working'', rev (section_items lower ''working'' rows)),
       (''conference'', rev (section_items lower ''conference'' rows)),
       (''other'', rev (section_items lower ''other'' rows))]) = length rows"
    using section_items_length [of lower rows] by simp
  show ?thesis
    unfolding main_def assms option.case sum.case bucketing_eq fill_shell_std n
    by (rule exI) (rule refl)
qed

lemma replace_char_boundary:
  assumes "c \<notin> set p" "p \<noteq> []"
  shows "replace p new (a @ c # b) = replace p new a @ c # replace p new b"
proof (induction a rule: length_induct)
  case (1 a)
  have np: "\<not> prefix p (c # b)"
    using assms by (cases p) auto
  show ?case
  proof (cases a)
    case Nil
    show ?thesis unfolding Nil using np assms(2) by simp
  next
    case (Cons x xs)
    show ?thesis
    proof (cases "prefix p (x # xs)")
      case True
      then obtain r where r: "a = p @ r"
        unfolding Cons by (auto simp: prefix_def)
      then have "length a = length (p @ r)" by (rule arg_cong)
      then have "length r < length a" using assms(2) by simp
      with 1 have IH: "replace p new (r @ c # b) = replace p new r @ c # replace p new b"
        by blast
      have "replace p new (a @ c # b) = replace p new (p @ (r @ c # b))"
        unfolding r by simp
      also have "\<dots> = new @ replace p new (r @ c # b)"
        using assms(2) by (rule replace_match)
      also have "\<dots> = (new @ replace p new r) @ c # replace p new b"
        unfolding IH by simp
      also have "new @ replace p new r = replace p new a"
        unfolding r using assms(2) by (rule replace_match [symmetric])
      finally show ?thesis .
    next
      case False
      have npre: "\<not> prefix p (x # (xs @ c # b))"
      proof
        assume "prefix p (x # (xs @ c # b))"
        then have "prefix p ((x # xs) @ (c # b))" by auto
        then have "prefix p (x # xs) \<or> (\<exists>us. p = (x # xs) @ us \<and> prefix us (c # b))"
          unfolding prefix_append .
        with False obtain us where us: "p = (x # xs) @ us" "prefix us (c # b)" by blast
        show False
        proof (cases us)
          case Nil
          with us have "p = x # xs" by simp
          with False show False by simp
        next
          case (Cons u us')
          with us(2) have "u = c" by simp
          with us(1) Cons have "c \<in> set p" by simp
          with assms show False by simp
        qed
      qed
      have IH: "replace p new (xs @ c # b) = replace p new xs @ c # replace p new b"
        using 1 Cons by simp
      have "replace p new (a @ c # b) = replace p new (x # (xs @ c # b))"
        unfolding Cons by simp
      also have "\<dots> = x # replace p new (xs @ c # b)"
        using assms(2) npre by (rule replace_skip)
      also have "\<dots> = (x # replace p new xs) @ c # replace p new b"
        unfolding IH by simp
      also have "x # replace p new xs = replace p new a"
        unfolding Cons using assms(2) False by (rule replace_skip [symmetric])
      finally show ?thesis .
    qed
  qed
qed

lemma replace_unlines:
  assumes "newline \<notin> set p" "p \<noteq> []"
  shows "replace p new (unlines ls) = unlines (map (replace p new) ls)"
proof (induction ls)
  case Nil
  then show ?case using assms(2) by (simp add: unlines_def)
next
  case (Cons l ls)
  have "replace p new (unlines (l # ls)) = replace p new (l @ newline # unlines ls)"
    by (simp add: unlines_def)
  also have "\<dots> = replace p new l @ newline # replace p new (unlines ls)"
    using assms by (rule replace_char_boundary)
  also have "\<dots> = unlines (map (replace p new) (l # ls))"
    unfolding Cons by (simp add: unlines_def)
  finally show ?case .
qed

lemma replace_no_occurrence:
  assumes "p \<noteq> []" "\<not> sublist p s"
  shows "replace p new s = s"
  using assms(2)
proof (induction s)
  case Nil
  then show ?case using assms(1) by simp
next
  case (Cons x xs)
  then have a: "\<not> prefix p (x # xs)" and b: "\<not> sublist p xs"
    by (auto simp: sublist_Cons_right)
  have "replace p new (x # xs) = x # replace p new xs"
    using assms(1) a by (rule replace_skip)
  with Cons(1) [OF b] show ?case by simp
qed

lemma sublist_of_prefix: "prefix q p \<Longrightarrow> sublist p s \<Longrightarrow> sublist q s"
  unfolding sublist_def prefix_def by (metis append.assoc)

lemma replace_clean_lines:
  assumes "list_all (\<lambda>l. \<not> sublist ''{{'' l) ls" "prefix ''{{'' p"
  shows "map (replace p new) ls = ls"
proof -
  have "replace p new l = l" if "l \<in> set ls" for l
  proof (rule replace_no_occurrence)
    show "p \<noteq> []" using assms(2) by auto
    from that assms(1) have "\<not> sublist ''{{'' l" by (simp add: list_all_iff)
    then show "\<not> sublist p l" using sublist_of_prefix [OF assms(2)] by blast
  qed
  then show ?thesis by (simp add: map_idI)
qed

lemma head_clean: "list_all (\<lambda>l. \<not> sublist ''{{'' l) SHELL_head"
  by code_simp

lemma conference_clean: "list_all (\<lambda>l. \<not> sublist ''{{'' l) SHELL_conference"
  by code_simp

lemma working_clean: "list_all (\<lambda>l. \<not> sublist ''{{'' l) SHELL_working"
  by code_simp

lemma other_clean: "list_all (\<lambda>l. \<not> sublist ''{{'' l) SHELL_other"
  by code_simp

lemma tail_clean: "list_all (\<lambda>l. \<not> sublist ''{{'' l) SHELL_tail"
  by code_simp

lemma replace_page:
  assumes "newline \<notin> set p" "prefix ''{{'' p"
  shows "replace p new (page a b c d)
         = page (replace p new a) (replace p new b) (replace p new c) (replace p new d)"
proof -
  have ne: "p \<noteq> []" using assms(2) by auto
  note cl = replace_clean_lines [OF head_clean assms(2)] replace_clean_lines [OF conference_clean assms(2)]
    replace_clean_lines [OF working_clean assms(2)] replace_clean_lines [OF other_clean assms(2)]
    replace_clean_lines [OF tail_clean assms(2)]
  show ?thesis
    unfolding page_def replace_unlines [OF assms(1) ne] map_append cl by simp
qed

lemma SHELL_page: "SHELL = page ''{{JOURNAL_ITEMS}}'' ''{{CONF_ITEMS}}'' ''{{WORKING_ITEMS}}'' ''{{OTHER_ITEMS}}''"
  unfolding SHELL_def page_def ..

lemma fill_shell_page:
  "fill_shell [(''journal'', j), (''working'', w), (''conference'', c), (''other'', ot)]
   = Inr (page (replace ''{{OTHER_ITEMS}}'' (slot_text ot)
                 (replace ''{{CONF_ITEMS}}'' (slot_text c)
                   (replace ''{{WORKING_ITEMS}}'' (slot_text w) (slot_text j))))
               (replace ''{{OTHER_ITEMS}}'' (slot_text ot) (slot_text c))
               (replace ''{{OTHER_ITEMS}}'' (slot_text ot)
                 (replace ''{{CONF_ITEMS}}'' (slot_text c) (slot_text w)))
               (slot_text ot))"
proof -
  have nJ: "newline \<notin> set ''{{JOURNAL_ITEMS}}''" and nW: "newline \<notin> set ''{{WORKING_ITEMS}}''"
    and nC: "newline \<notin> set ''{{CONF_ITEMS}}''" and nO: "newline \<notin> set ''{{OTHER_ITEMS}}''"
    by (simp_all add: newline_def)
  have pJ: "prefix ''{{'' ''{{JOURNAL_ITEMS}}''" and pW: "prefix ''{{'' ''{{WORKING_ITEMS}}''"
    and pC: "prefix ''{{'' ''{{CONF_ITEMS}}''" and pO: "prefix ''{{'' ''{{OTHER_ITEMS}}''"
    by simp_all
  have 1: "replace ''{{JOURNAL_ITEMS}}'' (slot_text j) SHELL
      = page (slot_text j) ''{{CONF_ITEMS}}'' ''{{WORKING_ITEMS}}'' ''{{OTHER_ITEMS}}''"
    unfolding SHELL_page replace_page [OF nJ pJ] by simp
  have 2: "replace ''{{WORKING_ITEMS}}'' (slot_text w)
        (page (slot_text j) ''{{CONF_ITEMS}}'' ''{{WORKING_ITEMS}}'' ''{{OTHER_ITEMS}}'')
      = page (replace ''{{WORKING_ITEMS}}'' (slot_text w) (slot_text j)) ''{{CONF_ITEMS}}''
          (slot_text w) ''{{OTHER_ITEMS}}''"
    unfolding replace_page [OF nW pW] by simp
  have 3: "replace ''{{CONF_ITEMS}}'' (slot_text c)
        (page (replace ''{{WORKING_ITEMS}}'' (slot_text w) (slot_text j)) ''{{CONF_ITEMS}}''
          (slot_text w) ''{{OTHER_ITEMS}}'')
      = page (replace ''{{CONF_ITEMS}}'' (slot_text c) (replace ''{{WORKING_ITEMS}}'' (slot_text w) (slot_text j)))
          (slot_text c) (replace ''{{CONF_ITEMS}}'' (slot_text c) (slot_text w)) ''{{OTHER_ITEMS}}''"
    unfolding replace_page [OF nC pC] by simp
  have 4: "replace ''{{OTHER_ITEMS}}'' (slot_text ot)
        (page (replace ''{{CONF_ITEMS}}'' (slot_text c) (replace ''{{WORKING_ITEMS}}'' (slot_text w) (slot_text j)))
          (slot_text c) (replace ''{{CONF_ITEMS}}'' (slot_text c) (slot_text w)) ''{{OTHER_ITEMS}}'')
      = page (replace ''{{OTHER_ITEMS}}'' (slot_text ot)
                 (replace ''{{CONF_ITEMS}}'' (slot_text c)
                   (replace ''{{WORKING_ITEMS}}'' (slot_text w) (slot_text j))))
               (replace ''{{OTHER_ITEMS}}'' (slot_text ot) (slot_text c))
               (replace ''{{OTHER_ITEMS}}'' (slot_text ot)
                 (replace ''{{CONF_ITEMS}}'' (slot_text c) (slot_text w)))
               (slot_text ot)"
    unfolding replace_page [OF nO pO] by simp
  show ?thesis unfolding fill_shell_std 1 2 3 4 ..
qed

lemma slot_text_empty: "slot_text [] = [newline]"
  by (simp add: slot_text_def)

lemma replace_newline_only: "p \<noteq> [] \<Longrightarrow> newline \<notin> set p \<Longrightarrow> replace p new [newline] = [newline]"
  by (cases p) auto

lemma template_sections:
  \<open>''    <section class="pub-sec" data-sec="journal">'' \<in> set SHELL_head
   \<and> last SHELL_head = ''      <div class="paper-list" id="journal-papers">''
   \<and> ''    <section class="pub-sec" data-sec="conference">'' \<in> set SHELL_conference
   \<and> last SHELL_conference = ''      <div class="paper-list" id="conf-papers">''
   \<and> ''    <section class="pub-sec" data-sec="working">'' \<in> set SHELL_working
   \<and> last SHELL_working = ''      <div class="paper-list" id="working-papers">''
   \<and> ''    <section class="pub-sec" data-sec="other">'' \<in> set SHELL_other
   \<and> last SHELL_other = ''      <div class="paper-list" id="other-articles">''
   \<and> take 2 SHELL_conference = [''      </div>'', ''    </section>'']
   \<and> take 2 SHELL_working = [''      </div>'', ''    </section>'']
   \<and> take 2 SHELL_other = [''      </div>'', ''    </section>'']
   \<and> take 2 SHELL_tail = [''      </div>'', ''    </section>'']\<close>
  by code_simp

lemma main_page:
  assumes "csv_file w = Some table" "read_rows table = Inr rows"
  shows "main lower p w =
     (None, w\<lparr>out_file := Some (page
               (replace ''{{OTHER_ITEMS}}'' (slot_text (rev (section_items lower ''other'' rows)))
                 (replace ''{{CONF_ITEMS}}'' (slot_text (rev (section_items lower ''conference'' rows)))
                   (replace ''{{WORKING_ITEMS}}'' (slot_text (rev (section_items lower ''working'' rows)))
                     (slot_text (rev (section_items lower ''journal'' rows))))))
               (replace ''{{OTHER_ITEMS}}'' (slot_text (rev (section_items lower ''other'' rows)))
                 (slot_text (rev (section_items lower ''conference'' rows))))
               (replace ''{{OTHER_ITEMS}}'' (slot_text (rev (section_items lower ''other'' rows)))
                 (replace ''{{CONF_ITEMS}}'' (slot_text (rev (section_items lower ''conference'' rows)))
                   (slot_text (rev (section_items lower ''working'' rows)))))
               (slot_text (rev (section_items lower ''other'' rows)))),
              stdout := stdout w @ ''Wrote '' @ p @ '' ('' @ show_nat (length rows)
                        @ '' items).\<newline>''\<rparr>)"
proof -
  have n: "sum_list (map (\<lambda>(k, v). length v)
      [(''journal'', rev (section_items lower ''journal'' rows)),
       (''working'', rev (section_items lower ''working'' rows)),
       (''conference'', rev (section_items lower ''conference'' rows)),
       (''other'', rev (section_items lower ''other'' rows))]) = length rows"
    using section_items_length [of lower rows] by simp
  show ?thesis
    unfolding main_def assms option.case sum.case bucketing_eq fill_shell_page n
    by (rule refl)
qed

lemma slot_text_three: "slot_text [x, y, z] = x @ [newline] @ y @ [newline] @ z"
  by (simp add: slot_text_def)

lemma show_nat_3: "show_nat 3 = ''3''"
  by (simp add: show_nat.simps)

lemma main_three_working:
  assumes "csv_file w = Some table" "read_rows table = Inr [a, b, c]"
    "normalize_section lower (field a ''section'') = ''working''"
    "normalize_section lower (field b ''section'') = ''working''"
    "normalize_section lower (field c ''section'') = ''working''"
  shows "main lower p w =
     (None, w\<lparr>out_file := Some (page [newline] [newline]
               (replace ''{{OTHER_ITEMS}}'' [newline]
                 (replace ''{{CONF_ITEMS}}'' [newline]
                   (article lower c @ [newline] @ article lower b @ [newline] @ article lower a)))
               [newline]),
              stdout := stdout w @ ''Wrote '' @ p @ '' (3 items).\<newline>''\<rparr>)"
proof -
  have j: "section_items lower ''journal'' [a, b, c] = []"
    and c: "section_items lower ''conference'' [a, b, c] = []"
    and ot: "section_items lower ''other'' [a, b, c] = []"
    and wk: "section_items lower ''working'' [a, b, c] = [article lower a, article lower b, article lower c]"
    by (simp_all add: section_items_def assms(3-5))
  have nl: "replace ''{{OTHER_ITEMS}}'' new [newline] = [newline]"
    "replace ''{{CONF_ITEMS}}'' new [newline] = [newline]"
    "replace ''{{WORKING_ITEMS}}'' new [newline] = [newline]" for new
    by (simp_all add: newline_def)
  have l: "length [a, b, c] = 3" by simp
  show ?thesis
    unfolding main_page [OF assms(1,2)] j c ot wk l show_nat_3 rev.simps append_Nil
      slot_text_empty nl
    by (simp add: slot_text_three)
qed

text \<open>
  Claim C3. The four buckets hold the fragments of the rows, each fragment in the bucket
  of its row's section and in no other: every row has exactly one of the four sections,
  the buckets taken together are the fragments of all rows, and their sizes add up to the
  number of rows, which is the count the summary line prints.
\<close>

theorem buckets_partition:
  "bucketing lower rows
     = Inr [(''journal'', rev (section_items lower ''journal'' rows)),
            (''working'', rev (section_items lower ''working'' rows)),
            (''conference'', rev (section_items lower ''conference'' rows)),
            (''other'', rev (section_items lower ''other'' rows))]
   \<and> (\<forall>r \<in> set rows. \<exists>!k. k \<in> set [''journal'', ''working'', ''conference'', ''other'']
          \<and> normalize_section lower (field r ''section'') = k)
   \<and> mset (rev (section_items lower ''journal'' rows)) + mset (rev (section_items lower ''working'' rows))
       + mset (rev (section_items lower ''conference'' rows)) + mset (rev (section_items lower ''other'' rows))
       = mset (map (article lower) rows)
   \<and> length (rev (section_items lower ''journal'' rows)) + length (rev (section_items lower ''working'' rows))
       + length (rev (section_items lower ''conference'' rows)) + length (rev (section_items lower ''other'' rows))
       = length rows
   \<and> (csv_file w = Some table \<and> read_rows table = Inr rows \<longrightarrow>
        (\<exists>html. main lower p w =
           (None, w\<lparr>out_file := Some html,
                    stdout := stdout w @ ''Wrote '' @ p @ '' ('' @ show_nat (length rows)
                              @ '' items).\<newline>''\<rparr>)))"
proof -
  have one: "\<forall>r \<in> set rows. \<exists>!k. k \<in> set [''journal'', ''working'', ''conference'', ''other'']
          \<and> normalize_section lower (field r ''section'') = k"
  proof
    fix r
    have "normalize_section lower (field r ''section'') \<in> set [''journal'', ''working'', ''conference'', ''other'']"
      using normalize_section_range [of lower "field r ''section''"] by auto
    then show "\<exists>!k. k \<in> set [''journal'', ''working'', ''conference'', ''other'']
          \<and> normalize_section lower (field r ''section'') = k"
      by blast
  qed
  have m: "mset (rev (section_items lower ''journal'' rows)) + mset (rev (section_items lower ''working'' rows))
       + mset (rev (section_items lower ''conference'' rows)) + mset (rev (section_items lower ''other'' rows))
       = mset (map (article lower) rows)"
    using section_items_mset [of lower rows] by simp
  have l: "length (rev (section_items lower ''journal'' rows)) + length (rev (section_items lower ''working'' rows))
       + length (rev (section_items lower ''conference'' rows)) + length (rev (section_items lower ''other'' rows))
       = length rows"
    using section_items_length [of lower rows] by simp
  have p: "csv_file w = Some table \<and> read_rows table = Inr rows \<longrightarrow>
        (\<exists>html. main lower p w =
           (None, w\<lparr>out_file := Some html,
                    stdout := stdout w @ ''Wrote '' @ p @ '' ('' @ show_nat (length rows)
                              @ '' items).\<newline>''\<rparr>))"
    using main_success by blast
  show ?thesis by (intro conjI bucketing_eq one m l p)
qed


theorem buckets_partition_witness:
  "csv_file \<lparr>csv_file = Some [[''title'', ''section''], [''A'', ''Journal''], [], [''B'', '' misc '']],
             out_file = None, stderr = [], stdout = []\<rparr>
     = Some [[''title'', ''section''], [''A'', ''Journal''], [], [''B'', '' misc '']]
   \<and> read_rows [[''title'', ''section''], [''A'', ''Journal''], [], [''B'', '' misc '']]
     = Inr [[''title'' \<mapsto> ''A'', ''section'' \<mapsto> ''Journal''], [''title'' \<mapsto> ''B'', ''section'' \<mapsto> ''misc'']]
   \<and> (\<exists>html. main ascii_lower ''out.html''
          \<lparr>csv_file = Some [[''title'', ''section''], [''A'', ''Journal''], [], [''B'', '' misc '']],
           out_file = None, stderr = [], stdout = []\<rparr>
        = (None, \<lparr>csv_file = Some [[''title'', ''section''], [''A'', ''Journal''], [], [''B'', '' misc '']],
                  out_file = Some html, stderr = [],
                  stdout = ''Wrote out.html (2 items).\<newline>''\<rparr>))
   \<and> (\<exists>!k. k \<in> set [''journal'', ''working'', ''conference'', ''other'']
          \<and> normalize_section ascii_lower (field [''title'' \<mapsto> ''B'', ''section'' \<mapsto> ''misc''] ''section'') = k)"
proof -
  let ?t = "[[''title'', ''section''], [''A'', ''Journal''], [], [''B'', '' misc '']]"
  let ?rows = "[[''title'' \<mapsto> ''A'', ''section'' \<mapsto> ''Journal''], [''title'' \<mapsto> ''B'', ''section'' \<mapsto> ''misc'']]"
  let ?w = "\<lparr>csv_file = Some ?t, out_file = None, stderr = [], stdout = []\<rparr>"
  have c: "csv_file ?w = Some ?t" by simp
  have st: "strip ''title'' = ''title''" "strip ''section'' = ''section''" "strip ''A'' = ''A''"
    "strip ''Journal'' = ''Journal''" "strip ''B'' = ''B''" "strip '' misc '' = ''misc''"
    by code_simp+
  have r: "read_rows ?t = Inr ?rows"
    by (simp add: read_rows_def dict_reader_def row_dict_def st)
  have n: "show_nat (length ?rows) = ''2''"
    by (simp add: show_nat.simps)
  have mem: "[''title'' \<mapsto> ''B'', ''section'' \<mapsto> ''misc''] \<in> set ?rows" by simp
  note t = buckets_partition [where rows = ?rows and w = ?w and table = ?t and p = "''out.html''"
      and lower = ascii_lower]
  from t c r have "\<exists>html. main ascii_lower ''out.html'' ?w =
           (None, ?w\<lparr>out_file := Some html,
                    stdout := stdout ?w @ ''Wrote '' @ ''out.html'' @ '' ('' @ show_nat (length ?rows)
                              @ '' items).\<newline>''\<rparr>)"
    by (elim conjE) (erule mp, intro conjI)
  then have m: "\<exists>html. main ascii_lower ''out.html'' ?w
        = (None, \<lparr>csv_file = Some ?t, out_file = Some html, stderr = [],
                  stdout = ''Wrote out.html (2 items).\<newline>''\<rparr>)"
    unfolding n by simp
  from t have "\<forall>r \<in> set ?rows. \<exists>!k. k \<in> set [''journal'', ''working'', ''conference'', ''other'']
          \<and> normalize_section ascii_lower (field r ''section'') = k"
    by (elim conjE)
  from this mem have u: "\<exists>!k. k \<in> set [''journal'', ''working'', ''conference'', ''other'']
          \<and> normalize_section ascii_lower (field [''title'' \<mapsto> ''B'', ''section'' \<mapsto> ''misc''] ''section'') = k"
    by (rule bspec)
  show ?thesis by (intro conjI c r m u)
qed

lemma section_items_snoc:
  "section_items lower k (rows @ [r]) =
     section_items lower k rows @ (if normalize_section lower (field r ''section'') = k then [article lower r] else [])"
  by (simp add: section_items_def)

text \<open>
  Claim C4. A bucket takes the fragments of its section in the order of the input, a new
  row going to the end of its bucket; each bucket is then reversed once, and nothing
  sorts it. The fragments of a bucket are joined by newlines, in the order of the
  reversed bucket, and the text takes the place of the placeholder of its section in the
  page that is written. So a section shows its rows in the reverse of the input order:
  rows A, B, C of the section of working papers, given in that order, come out as the
  fragments of C, B, A on the line of that section, the other three sections holding an
  empty line. (The later replacements run over the text already put in; they change
  nothing in fragments that hold no \<^verbatim>\<open>{{\<close>.)
\<close>

theorem buckets_reverse_order:
  "section_items lower k (rows @ [r]) =
     section_items lower k rows @ (if normalize_section lower (field r ''section'') = k then [article lower r] else [])
   \<and> bucketing lower rows
     = Inr [(''journal'', rev (map (article lower) (filter (\<lambda>r. normalize_section lower (field r ''section'') = ''journal'') rows))),
            (''working'', rev (map (article lower) (filter (\<lambda>r. normalize_section lower (field r ''section'') = ''working'') rows))),
            (''conference'', rev (map (article lower) (filter (\<lambda>r. normalize_section lower (field r ''section'') = ''conference'') rows))),
            (''other'', rev (map (article lower) (filter (\<lambda>r. normalize_section lower (field r ''section'') = ''other'') rows)))]
   \<and> (normalize_section lower (field a ''section'') = ''working''
        \<and> normalize_section lower (field b ''section'') = ''working''
        \<and> normalize_section lower (field c ''section'') = ''working'' \<longrightarrow>
        bucketing lower [a, b, c]
          = Inr [(''journal'', []), (''working'', [article lower c, article lower b, article lower a]),
                 (''conference'', []), (''other'', [])])
   \<and> slot_text [] = [newline]
   \<and> slot_text [x, y, z] = x @ [newline] @ y @ [newline] @ z
   \<and> (csv_file w = Some table \<and> read_rows table = Inr rows \<longrightarrow>
        main lower p w =
          (None, w\<lparr>out_file := Some (page
               (replace ''{{OTHER_ITEMS}}'' (slot_text (rev (section_items lower ''other'' rows)))
                 (replace ''{{CONF_ITEMS}}'' (slot_text (rev (section_items lower ''conference'' rows)))
                   (replace ''{{WORKING_ITEMS}}'' (slot_text (rev (section_items lower ''working'' rows)))
                     (slot_text (rev (section_items lower ''journal'' rows))))))
               (replace ''{{OTHER_ITEMS}}'' (slot_text (rev (section_items lower ''other'' rows)))
                 (slot_text (rev (section_items lower ''conference'' rows))))
               (replace ''{{OTHER_ITEMS}}'' (slot_text (rev (section_items lower ''other'' rows)))
                 (replace ''{{CONF_ITEMS}}'' (slot_text (rev (section_items lower ''conference'' rows)))
                   (slot_text (rev (section_items lower ''working'' rows)))))
               (slot_text (rev (section_items lower ''other'' rows)))),
              stdout := stdout w @ ''Wrote '' @ p @ '' ('' @ show_nat (length rows)
                        @ '' items).\<newline>''\<rparr>))
   \<and> (csv_file w = Some table \<and> read_rows table = Inr [a, b, c]
        \<and> normalize_section lower (field a ''section'') = ''working''
        \<and> normalize_section lower (field b ''section'') = ''working''
        \<and> normalize_section lower (field c ''section'') = ''working'' \<longrightarrow>
        main lower p w =
          (None, w\<lparr>out_file := Some (page [newline] [newline]
               (replace ''{{OTHER_ITEMS}}'' [newline]
                 (replace ''{{CONF_ITEMS}}'' [newline]
                   (article lower c @ [newline] @ article lower b @ [newline] @ article lower a)))
               [newline]),
              stdout := stdout w @ ''Wrote '' @ p @ '' (3 items).\<newline>''\<rparr>)
        \<and> (\<not> sublist ''{{'' (article lower c @ [newline] @ article lower b @ [newline] @ article lower a) \<longrightarrow>
             out_file (snd (main lower p w)) = Some (page [newline] [newline]
               (article lower c @ [newline] @ article lower b @ [newline] @ article lower a)
               [newline])))"
proof -
  have b: "bucketing lower rows
     = Inr [(''journal'', rev (map (article lower) (filter (\<lambda>r. normalize_section lower (field r ''section'') = ''journal'') rows))),
            (''working'', rev (map (article lower) (filter (\<lambda>r. normalize_section lower (field r ''section'') = ''working'') rows))),
            (''conference'', rev (map (article lower) (filter (\<lambda>r. normalize_section lower (field r ''section'') = ''conference'') rows))),
            (''other'', rev (map (article lower) (filter (\<lambda>r. normalize_section lower (field r ''section'') = ''other'') rows)))]"
    using bucketing_eq [of lower rows] unfolding section_items_def .
  have e: "normalize_section lower (field a ''section'') = ''working''
        \<and> normalize_section lower (field b ''section'') = ''working''
        \<and> normalize_section lower (field c ''section'') = ''working'' \<longrightarrow>
        bucketing lower [a, b, c]
          = Inr [(''journal'', []), (''working'', [article lower c, article lower b, article lower a]),
                 (''conference'', []), (''other'', [])]"
    unfolding bucketing_eq by (simp add: section_items_def)
  have g: "csv_file w = Some table \<and> read_rows table = Inr rows \<longrightarrow>
        main lower p w =
          (None, w\<lparr>out_file := Some (page
               (replace ''{{OTHER_ITEMS}}'' (slot_text (rev (section_items lower ''other'' rows)))
                 (replace ''{{CONF_ITEMS}}'' (slot_text (rev (section_items lower ''conference'' rows)))
                   (replace ''{{WORKING_ITEMS}}'' (slot_text (rev (section_items lower ''working'' rows)))
                     (slot_text (rev (section_items lower ''journal'' rows))))))
               (replace ''{{OTHER_ITEMS}}'' (slot_text (rev (section_items lower ''other'' rows)))
                 (slot_text (rev (section_items lower ''conference'' rows))))
               (replace ''{{OTHER_ITEMS}}'' (slot_text (rev (section_items lower ''other'' rows)))
                 (replace ''{{CONF_ITEMS}}'' (slot_text (rev (section_items lower ''conference'' rows)))
                   (slot_text (rev (section_items lower ''working'' rows)))))
               (slot_text (rev (section_items lower ''other'' rows)))),
              stdout := stdout w @ ''Wrote '' @ p @ '' ('' @ show_nat (length rows)
                        @ '' items).\<newline>''\<rparr>)"
  proof
    assume "csv_file w = Some table \<and> read_rows table = Inr rows"
    then have "csv_file w = Some table" "read_rows table = Inr rows" by simp_all
    then show "main lower p w =
          (None, w\<lparr>out_file := Some (page
               (replace ''{{OTHER_ITEMS}}'' (slot_text (rev (section_items lower ''other'' rows)))
                 (replace ''{{CONF_ITEMS}}'' (slot_text (rev (section_items lower ''conference'' rows)))
                   (replace ''{{WORKING_ITEMS}}'' (slot_text (rev (section_items lower ''working'' rows)))
                     (slot_text (rev (section_items lower ''journal'' rows))))))
               (replace ''{{OTHER_ITEMS}}'' (slot_text (rev (section_items lower ''other'' rows)))
                 (slot_text (rev (section_items lower ''conference'' rows))))
               (replace ''{{OTHER_ITEMS}}'' (slot_text (rev (section_items lower ''other'' rows)))
                 (replace ''{{CONF_ITEMS}}'' (slot_text (rev (section_items lower ''conference'' rows)))
                   (slot_text (rev (section_items lower ''working'' rows)))))
               (slot_text (rev (section_items lower ''other'' rows)))),
              stdout := stdout w @ ''Wrote '' @ p @ '' ('' @ show_nat (length rows)
                        @ '' items).\<newline>''\<rparr>)"
      by (rule main_page)
  qed
  have h: "csv_file w = Some table \<and> read_rows table = Inr [a, b, c]
        \<and> normalize_section lower (field a ''section'') = ''working''
        \<and> normalize_section lower (field b ''section'') = ''working''
        \<and> normalize_section lower (field c ''section'') = ''working'' \<longrightarrow>
        main lower p w =
          (None, w\<lparr>out_file := Some (page [newline] [newline]
               (replace ''{{OTHER_ITEMS}}'' [newline]
                 (replace ''{{CONF_ITEMS}}'' [newline]
                   (article lower c @ [newline] @ article lower b @ [newline] @ article lower a)))
               [newline]),
              stdout := stdout w @ ''Wrote '' @ p @ '' (3 items).\<newline>''\<rparr>)
        \<and> (\<not> sublist ''{{'' (article lower c @ [newline] @ article lower b @ [newline] @ article lower a) \<longrightarrow>
             out_file (snd (main lower p w)) = Some (page [newline] [newline]
               (article lower c @ [newline] @ article lower b @ [newline] @ article lower a)
               [newline]))"
  proof
    assume as: "csv_file w = Some table \<and> read_rows table = Inr [a, b, c]
        \<and> normalize_section lower (field a ''section'') = ''working''
        \<and> normalize_section lower (field b ''section'') = ''working''
        \<and> normalize_section lower (field c ''section'') = ''working''"
    then have as': "csv_file w = Some table" "read_rows table = Inr [a, b, c]"
        "normalize_section lower (field a ''section'') = ''working''"
        "normalize_section lower (field b ''section'') = ''working''"
        "normalize_section lower (field c ''section'') = ''working''"
      by simp_all
    note m = main_three_working [OF as', of p]
    have cl: "\<not> sublist ''{{'' (article lower c @ [newline] @ article lower b @ [newline] @ article lower a) \<longrightarrow>
             out_file (snd (main lower p w)) = Some (page [newline] [newline]
               (article lower c @ [newline] @ article lower b @ [newline] @ article lower a)
               [newline])"
    proof
      assume ns: "\<not> sublist ''{{'' (article lower c @ [newline] @ article lower b @ [newline] @ article lower a)"
      have 1: "replace ''{{CONF_ITEMS}}'' [newline]
                   (article lower c @ [newline] @ article lower b @ [newline] @ article lower a)
            = article lower c @ [newline] @ article lower b @ [newline] @ article lower a"
      proof (rule replace_no_occurrence)
        show "''{{CONF_ITEMS}}'' \<noteq> []" by simp
        have "prefix ''{{'' ''{{CONF_ITEMS}}''" by simp
        from sublist_of_prefix [OF this] ns
        show "\<not> sublist ''{{CONF_ITEMS}}'' (article lower c @ [newline] @ article lower b @ [newline] @ article lower a)"
          by blast
      qed
      have 2: "replace ''{{OTHER_ITEMS}}'' [newline]
                   (article lower c @ [newline] @ article lower b @ [newline] @ article lower a)
            = article lower c @ [newline] @ article lower b @ [newline] @ article lower a"
      proof (rule replace_no_occurrence)
        show "''{{OTHER_ITEMS}}'' \<noteq> []" by simp
        have "prefix ''{{'' ''{{OTHER_ITEMS}}''" by simp
        from sublist_of_prefix [OF this] ns
        show "\<not> sublist ''{{OTHER_ITEMS}}'' (article lower c @ [newline] @ article lower b @ [newline] @ article lower a)"
          by blast
      qed
      show "out_file (snd (main lower p w)) = Some (page [newline] [newline]
               (article lower c @ [newline] @ article lower b @ [newline] @ article lower a)
               [newline])"
        unfolding m 1 2 by simp
    qed
    from m cl show "main lower p w =
          (None, w\<lparr>out_file := Some (page [newline] [newline]
               (replace ''{{OTHER_ITEMS}}'' [newline]
                 (replace ''{{CONF_ITEMS}}'' [newline]
                   (article lower c @ [newline] @ article lower b @ [newline] @ article lower a)))
               [newline]),
              stdout := stdout w @ ''Wrote '' @ p @ '' (3 items).\<newline>''\<rparr>)
        \<and> (\<not> sublist ''{{'' (article lower c @ [newline] @ article lower b @ [newline] @ article lower a) \<longrightarrow>
             out_file (snd (main lower p w)) = Some (page [newline] [newline]
               (article lower c @ [newline] @ article lower b @ [newline] @ article lower a)
               [newline]))"
      by (rule conjI)
  qed
  show ?thesis by (intro conjI section_items_snoc b e slot_text_empty slot_text_three g h)
qed

theorem buckets_reverse_order_witness:
  "main ascii_lower ''out.html''
      \<lparr>csv_file = Some [[''title'', ''section''], [''A'', ''work''], [''B'', ''Working Paper''], [''C'', ''WORK'']],
       out_file = None, stderr = [], stdout = []\<rparr>
   = (None,
      \<lparr>csv_file = Some [[''title'', ''section''], [''A'', ''work''], [''B'', ''Working Paper''], [''C'', ''WORK'']],
       out_file = Some (page [newline] [newline]
          (article ascii_lower [''title'' \<mapsto> ''C'', ''section'' \<mapsto> ''WORK''] @ [newline]
           @ article ascii_lower [''title'' \<mapsto> ''B'', ''section'' \<mapsto> ''Working Paper''] @ [newline]
           @ article ascii_lower [''title'' \<mapsto> ''A'', ''section'' \<mapsto> ''work''])
          [newline]),
       stderr = [], stdout = ''Wrote out.html (3 items).\<newline>''\<rparr>)
   \<and> bucketing ascii_lower [[''title'' \<mapsto> ''A'', ''section'' \<mapsto> ''work''],
                 [''title'' \<mapsto> ''B'', ''section'' \<mapsto> ''Working Paper''],
                 [''title'' \<mapsto> ''C'', ''section'' \<mapsto> ''WORK'']]
     = Inr [(''journal'', []),
            (''working'', [article ascii_lower [''title'' \<mapsto> ''C'', ''section'' \<mapsto> ''WORK''],
                           article ascii_lower [''title'' \<mapsto> ''B'', ''section'' \<mapsto> ''Working Paper''],
                           article ascii_lower [''title'' \<mapsto> ''A'', ''section'' \<mapsto> ''work'']]),
            (''conference'', []), (''other'', [])]"
proof -
  let ?t = "[[''title'', ''section''], [''A'', ''work''], [''B'', ''Working Paper''], [''C'', ''WORK'']]"
  let ?a = "[''title'' \<mapsto> ''A'', ''section'' \<mapsto> ''work'']"
  let ?b = "[''title'' \<mapsto> ''B'', ''section'' \<mapsto> ''Working Paper'']"
  let ?c = "[''title'' \<mapsto> ''C'', ''section'' \<mapsto> ''WORK'']"
  let ?w = "\<lparr>csv_file = Some ?t, out_file = None, stderr = [], stdout = []\<rparr>"
  have st: "strip ''title'' = ''title''" "strip ''section'' = ''section''" "strip ''A'' = ''A''"
    "strip ''B'' = ''B''" "strip ''C'' = ''C''" "strip ''work'' = ''work''"
    "strip ''Working Paper'' = ''Working Paper''" "strip ''WORK'' = ''WORK''"
    by code_simp+
  have cf: "csv_file ?w = Some ?t" by simp
  have rr: "read_rows ?t = Inr [?a, ?b, ?c]"
    by (simp add: read_rows_def dict_reader_def row_dict_def st)
  have na: "normalize_section ascii_lower (field ?a ''section'') = ''working''"
    and nb: "normalize_section ascii_lower (field ?b ''section'') = ''working''"
    and nc: "normalize_section ascii_lower (field ?c ''section'') = ''working''"
    by (simp_all add: field_def normalize_section_def startswith_def ascii_lower_def lower_char_def st)
  have clean: "\<not> sublist ''{{'' (article ascii_lower ?c @ [newline] @ article ascii_lower ?b
      @ [newline] @ article ascii_lower ?a)"
    by code_simp
  note t = buckets_reverse_order [where a = ?a and b = ?b and c = ?c and lower = ascii_lower
      and w = ?w and table = ?t and p = "''out.html''"]
  note t3 = t [THEN conjunct2, THEN conjunct2, THEN conjunct1, THEN mp, OF conjI [OF na conjI [OF nb nc]]]
  note t7 = t [THEN conjunct2, THEN conjunct2, THEN conjunct2, THEN conjunct2, THEN conjunct2,
      THEN conjunct2, THEN mp, OF conjI [OF cf conjI [OF rr conjI [OF na conjI [OF nb nc]]]]]
  note o = t7 [THEN conjunct2, THEN mp, OF clean]
  from t7 [THEN conjunct1] have m0: "main ascii_lower ''out.html'' ?w =
          (None, ?w\<lparr>out_file := Some (page [newline] [newline]
               (replace ''{{OTHER_ITEMS}}'' [newline]
                 (replace ''{{CONF_ITEMS}}'' [newline]
                   (article ascii_lower ?c @ [newline] @ article ascii_lower ?b @ [newline] @ article ascii_lower ?a)))
               [newline]),
              stdout := stdout ?w @ ''Wrote '' @ ''out.html'' @ '' (3 items).\<newline>''\<rparr>)" .
  have m: "main ascii_lower ''out.html'' ?w
   = (None, \<lparr>csv_file = Some ?t,
       out_file = Some (page [newline] [newline]
          (article ascii_lower ?c @ [newline] @ article ascii_lower ?b @ [newline] @ article ascii_lower ?a)
          [newline]),
       stderr = [], stdout = ''Wrote out.html (3 items).\<newline>''\<rparr>)"
    using o unfolding m0 by simp
  show ?thesis by (intro conjI m t3)
qed

lemma main_missing_input:
  "csv_file w = None \<Longrightarrow>
   main lower p w = (Some (SystemExit 1),
               w\<lparr>stderr := stderr w
                     @ ''ERROR: publications.csv not found next to build_publications.py\<newline>''
                     @ ''Create the CSV (see template) and run again.\<newline>''\<rparr>)"
  by (simp add: main_def)

lemma main_missing_input_output:
  "csv_file w = None \<Longrightarrow> out_file (snd (main lower p w)) = out_file w \<and> stdout (snd (main lower p w)) = stdout w
     \<and> fst (main lower p w) \<noteq> None"
  by (simp add: main_missing_input)

lemma dict_set_subset: "set (dict_set k v d) \<subseteq> insert (k, v) (set d)"
  by (induction d) (auto split: if_splits)

lemma fold_dict_set_subset:
  "set (fold (\<lambda>(k, v). dict_set k v) xs d) \<subseteq> set xs \<union> set d"
proof (induction xs arbitrary: d)
  case Nil
  then show ?case by simp
next
  case (Cons x xs)
  obtain k v where x: "x = (k, v)" by (cases x)
  have "set (fold (\<lambda>(k, v). dict_set k v) xs (dict_set k v d)) \<subseteq> set xs \<union> set (dict_set k v d)"
    by (rule Cons)
  also have "\<dots> \<subseteq> set xs \<union> insert (k, v) (set d)"
    using dict_set_subset [of k v d] by auto
  finally show ?case unfolding x by auto
qed

lemma fold_novalue_subset:
  "set (fold (\<lambda>key. dict_set (Some key) NoValue) ks d) \<subseteq> (\<lambda>key. (Some key, NoValue)) ` set ks \<union> set d"
proof (induction ks arbitrary: d)
  case Nil
  then show ?case by simp
next
  case (Cons key ks)
  have "set (fold (\<lambda>key. dict_set (Some key) NoValue) ks (dict_set (Some key) NoValue d))
      \<subseteq> (\<lambda>key. (Some key, NoValue)) ` set ks \<union> set (dict_set (Some key) NoValue d)"
    by (rule Cons)
  also have "\<dots> \<subseteq> (\<lambda>key. (Some key, NoValue)) ` set ks \<union> insert (Some key, NoValue) (set d)"
    using dict_set_subset [of "Some key" NoValue d] by auto
  finally show ?case by auto
qed

lemma row_dict_short:
  assumes "length r \<le> length fieldnames" "(k, v) \<in> set (row_dict fieldnames r)"
  shows "k \<noteq> None \<and> (\<forall>l. v \<noteq> Rest l)"
proof -
  let ?d = "fold (\<lambda>(k, v). dict_set k v) (zip (map Some fieldnames) (map Str r)) []"
  have z: "(k', v') \<in> set (zip (map Some fieldnames) (map Str r)) \<Longrightarrow> k' \<noteq> None \<and> (\<forall>l. v' \<noteq> Rest l)"
    for k' v'
  proof -
    assume m: "(k', v') \<in> set (zip (map Some fieldnames) (map Str r))"
    from set_zip_leftD [OF m] have "k' \<noteq> None" by auto
    moreover from set_zip_rightD [OF m] have "\<forall>l. v' \<noteq> Rest l" by auto
    ultimately show ?thesis by simp
  qed
  have d: "(k', v') \<in> set ?d \<Longrightarrow> k' \<noteq> None \<and> (\<forall>l. v' \<noteq> Rest l)" for k' v'
    using fold_dict_set_subset [of "zip (map Some fieldnames) (map Str r)" "[]"] z by auto
  from assms(2) have "(k, v) \<in> set ?d
      \<or> (k, v) \<in> set (fold (\<lambda>key. dict_set (Some key) NoValue) (drop (length r) fieldnames) ?d)"
    using assms(1) unfolding row_dict_def Let_def by (auto split: if_splits)
  then show ?thesis
  proof
    assume "(k, v) \<in> set ?d"
    then show ?thesis by (rule d)
  next
    assume "(k, v) \<in> set (fold (\<lambda>key. dict_set (Some key) NoValue) (drop (length r) fieldnames) ?d)"
    then have "(k, v) \<in> (\<lambda>key. (Some key, NoValue)) ` set (drop (length r) fieldnames) \<union> set ?d"
      using fold_novalue_subset by blast
    then show ?thesis using d by auto
  qed
qed

lemma read_row_succeeds:
  "(\<And>k v. (k, v) \<in> set d \<Longrightarrow> k \<noteq> None \<and> (\<forall>l. v \<noteq> Rest l)) \<Longrightarrow> \<exists>m. read_row d acc = Inr m"
proof (induction d arbitrary: acc)
  case Nil
  then show ?case by simp
next
  case (Cons x d)
  obtain k v where x: "x = (k, v)" by (cases x)
  from Cons(2) [of k v] x obtain key where k: "k = Some key" and v: "\<forall>l. v \<noteq> Rest l" by auto
  have rec: "\<exists>m. read_row d acc' = Inr m" for acc'
    by (rule Cons(1)) (use Cons(2) in auto)
  show ?case unfolding x k using v rec by (cases v) auto
qed

lemma read_loop_succeeds:
  "(\<And>d acc. d \<in> set ds \<Longrightarrow> \<exists>m. read_row d acc = Inr m) \<Longrightarrow> \<exists>rs. read_loop ds rows = Inr rs"
proof (induction ds arbitrary: rows)
  case Nil
  then show ?case by simp
next
  case (Cons d ds)
  from Cons(2) [of d Map.empty] obtain m where m: "read_row d Map.empty = Inr m" by auto
  have "\<exists>rs. read_loop ds (rows @ [m]) = Inr rs"
    by (rule Cons(1)) (use Cons(2) in auto)
  then show ?case by (simp add: m)
qed

lemma read_rows_short_rows:
  assumes "\<forall>r \<in> set rows. length r \<le> length fieldnames"
  shows "\<exists>rs. read_rows (fieldnames # rows) = Inr rs"
  unfolding read_rows_def dict_reader_def list.case
proof (rule read_loop_succeeds)
  fix d acc
  assume "d \<in> set (map (row_dict fieldnames) (filter (\<lambda>r. r \<noteq> []) rows))"
  then obtain r where r: "r \<in> set rows" "d = row_dict fieldnames r" by auto
  with assms have "length r \<le> length fieldnames" by blast
  then show "\<exists>m. read_row d acc = Inr m"
    unfolding r(2) by (intro read_row_succeeds row_dict_short)
qed

lemma main_short_rows_succeed:
  assumes "csv_file w = Some (fieldnames # rows)" "\<forall>r \<in> set rows. length r \<le> length fieldnames"
  shows "fst (main lower p w) = None"
proof -
  from read_rows_short_rows [OF assms(2)] obtain rs where "read_rows (fieldnames # rows) = Inr rs"
    by blast
  from main_success [OF assms(1) this, of lower p] show ?thesis by auto
qed

text \<open>
  Claim C5. A missing input file ends the run with \<^verbatim>\<open>SystemExit(1)\<close> after two lines on
  standard error, and the output file is left as it was (\<open>main_missing_input\<close> above); a table whose rows are no longer than
  its header never fails (\<open>main_short_rows_succeed\<close>). The
  claim goes on: nothing else is fatal. A row with more cells than the header is: the
  reader files the extra cells under the key \<^verbatim>\<open>None\<close>, \<^verbatim>\<open>read_rows\<close> calls \<^verbatim>\<open>strip\<close> on that
  key, and the run ends with \<^verbatim>\<open>AttributeError\<close>, nothing written.
\<close>

theorem main_long_row_raises:
  "main lower ''publications.html''
     \<lparr>csv_file = Some [[''title'', ''section''], [''A'', ''journal'', ''extra'']],
      out_file = Some ''old'', stderr = [], stdout = []\<rparr>
   = (Some AttributeError,
      \<lparr>csv_file = Some [[''title'', ''section''], [''A'', ''journal'', ''extra'']],
       out_file = Some ''old'', stderr = [], stdout = []\<rparr>)"
  by (simp add: main_def read_rows_def dict_reader_def row_dict_def)

end
